theory Spec2Isabelle
  imports Complex_Main "HOL-Library.Word" "HOL-Library.Char_ord" "HOL-Library.List_Lexorder"
    "HOL-Library.Log_Nat"
begin

section \<open>Data model\<close>

text \<open>
  A pixel is an RGBA quadruple packed into 32 bits; the all-zero pixel is transparent black,
  the content of a canvas whose size has just been set.
\<close>

type_synonym pixel = "32 word"

definition transparent :: pixel where
  "transparent = 0"

text \<open>
  An \<open>HTMLCanvasElement\<close>: its \<open>width\<close> and \<open>height\<close> attributes and its bitmap, read by
  column and row. The source's \<open>number\<close> values that are dimensions and coordinates are
  integers here; \<open>splitY2\<close> is an integer, as the application passes it.
\<close>

record canvas =
  cwidth :: int
  cheight :: int
  pixel_at :: "int \<Rightarrow> int \<Rightarrow> pixel"

text \<open>The pixel at column \<open>i\<close>, row \<open>j\<close>; there is none outside the bitmap.\<close>

definition getPixel :: "canvas \<Rightarrow> int \<Rightarrow> int \<Rightarrow> pixel" where
  "getPixel c i j =
     (if 0 \<le> i \<and> i < cwidth c \<and> 0 \<le> j \<and> j < cheight c then pixel_at c i j else transparent)"

type_synonym blob = "8 word list"

text \<open>
  \<open>SliceResult\<close> of \<open>types.ts\<close>. The fields \<open>id\<close>, \<open>x\<close> and \<open>y\<close> are \<open>slice_id\<close>,
  \<open>slice_x\<close> and \<open>slice_y\<close> here.
\<close>

record SliceResult =
  slice_id :: string
  name :: string
  blob :: blob
  url :: string
  width :: int
  height :: int
  slice_x :: int
  slice_y :: int

text \<open>\<open>new Error(message)\<close>, the value a rejected promise carries.\<close>

datatype error = Error string

section \<open>The platform\<close>

text \<open>
  What the browser decides and the source only observes: whether \<open>getContext('2d')\<close> returns
  a context for a canvas, what \<open>toBlob\<close> hands to its callback (\<open>None\<close> is \<open>null\<close>), and the
  string \<open>URL.createObjectURL\<close> returns for the \<open>n\<close>-th URL it creates.
\<close>

record env =
  getContext :: "canvas \<Rightarrow> bool"
  toBlob :: "canvas \<Rightarrow> blob option"
  createObjectURL :: "nat \<Rightarrow> blob \<Rightarrow> string"

text \<open>\<open>document.createElement('canvas')\<close> followed by setting \<open>width\<close> and \<open>height\<close>.\<close>

definition createCanvas :: "int \<Rightarrow> int \<Rightarrow> canvas" where
  "createCanvas w h = \<lparr>cwidth = w, cheight = h, pixel_at = (\<lambda>i j. transparent)\<rparr>"

text \<open>
  \<open>cx.drawImage(src, sx, sy, w, h, dx, dy, w, h)\<close>: every call of the slicing code passes
  the same size for the source and the destination rectangle, so no scaling takes place.
  The source rectangle is clipped to the source bitmap and the destination rectangle with
  it; every destination is a canvas created just before, so compositing stores the source
  pixel. The drawing primitive is total in this model: where the rectangle holds no pixel of
  the source, nothing is copied. The browser's refusal to draw from a source canvas of no
  area is outside the model.
\<close>

definition drawImage :: "canvas \<Rightarrow> canvas \<Rightarrow> int \<Rightarrow> int \<Rightarrow> int \<Rightarrow> int \<Rightarrow> int \<Rightarrow> int \<Rightarrow> canvas" where
  "drawImage dst src sx sy w h dx dy =
     dst\<lparr>pixel_at := (\<lambda>i j.
        if dx \<le> i \<and> i < dx + w \<and> dy \<le> j \<and> j < dy + h
           \<and> 0 \<le> sx + (i - dx) \<and> sx + (i - dx) < cwidth src
           \<and> 0 \<le> sy + (j - dy) \<and> sy + (j - dy) < cheight src
        then pixel_at src (sx + (i - dx)) (sy + (j - dy))
        else pixel_at dst i j)\<rparr>"

section \<open>Sorting by name\<close>

text \<open>
  \<open>a.name.localeCompare(b.name)\<close>: negative, zero or positive. The names compared are
  \<open>m_1.png\<close> to \<open>m_6.png\<close>, which differ in one ASCII digit; there the collation order is
  the order of the character codes, which is the order modelled.
\<close>

definition localeCompare :: "string \<Rightarrow> string \<Rightarrow> int" where
  "localeCompare a b = (if a < b then - 1 else if a = b then 0 else 1)"

text \<open>
  \<open>Array.prototype.sort\<close> with a comparator is a stable sort; its result is the one of
  insertion from the right, which puts an element before the first one it does not exceed.
\<close>

fun insertSlice :: "SliceResult \<Rightarrow> SliceResult list \<Rightarrow> SliceResult list" where
  "insertSlice a [] = [a]"
| "insertSlice a (b # bs) =
     (if localeCompare (name a) (name b) \<le> 0 then a # b # bs else b # insertSlice a bs)"

fun sortSlices :: "SliceResult list \<Rightarrow> SliceResult list" where
  "sortSlices [] = []"
| "sortSlices (a # as) = insertSlice a (sortSlices as)"

section \<open>processSlices\<close>

text \<open>
  The state the slicing code mutates: the array \<open>slices\<close> and the number of object URLs
  created so far.
\<close>

record pstate =
  slices :: "SliceResult list"
  urls :: nat

text \<open>The callback of \<open>toBlob\<close>: a slice is pushed only when there is a blob.\<close>

definition pushBlob ::
  "env \<Rightarrow> blob option \<Rightarrow> string \<Rightarrow> int \<Rightarrow> int \<Rightarrow> int \<Rightarrow> int \<Rightarrow> pstate \<Rightarrow> pstate" where
  "pushBlob e b nm x y w h st =
     (case b of
        None \<Rightarrow> st
      | Some bl \<Rightarrow>
          st\<lparr>slices := slices st @
                [\<lparr>slice_id = nm, name = nm @ ''.png'', blob = bl,
                  url = createObjectURL e (urls st) bl,
                  width = w, height = h, slice_x = x, slice_y = y\<rparr>],
             urls := Suc (urls st)\<rparr>)"

text \<open>The canvas \<open>extract\<close> has drawn when it calls \<open>toBlob\<close>.\<close>

definition regionCanvas :: "canvas \<Rightarrow> int \<Rightarrow> int \<Rightarrow> int \<Rightarrow> int \<Rightarrow> canvas" where
  "regionCanvas sourceCanvas x y w h = drawImage (createCanvas w h) sourceCanvas x y w h 0 0"

text \<open>The helper \<open>extract\<close> (lines 65 to 93), named \<open>extractRegion\<close> here.\<close>

definition extractRegion ::
  "env \<Rightarrow> canvas \<Rightarrow> int \<Rightarrow> int \<Rightarrow> int \<Rightarrow> int \<Rightarrow> string \<Rightarrow> pstate \<Rightarrow> pstate" where
  "extractRegion e sourceCanvas x y w h nm st =
     (if h \<le> 0 \<or> w \<le> 0 then st
      else if \<not> getContext e (createCanvas w h) then st
      else pushBlob e (toBlob e (regionCanvas sourceCanvas x y w h)) nm x y w h st)"

text \<open>
  The constants \<open>processSlices\<close> computes from the height of the source and \<open>splitY2\<close>
  (lines 61, 62, 96, 115 to 117, 125 and 136).
\<close>

definition topHeight :: "canvas \<Rightarrow> int" where
  "topHeight sourceCanvas =
     (let totalHeight = cheight sourceCanvas; splitY1 = 640 in min splitY1 totalHeight)"

definition midEnd :: "canvas \<Rightarrow> int \<Rightarrow> int" where
  "midEnd sourceCanvas splitY2 = (let totalHeight = cheight sourceCanvas in min splitY2 totalHeight)"

definition midHeight :: "canvas \<Rightarrow> int \<Rightarrow> int" where
  "midHeight sourceCanvas splitY2 =
     (let splitY1 = 640; midStart = splitY1 in midEnd sourceCanvas splitY2 - midStart)"

definition botStart :: "canvas \<Rightarrow> int \<Rightarrow> int" where
  "botStart sourceCanvas splitY2 = midEnd sourceCanvas splitY2"

definition availableHeight :: "canvas \<Rightarrow> int \<Rightarrow> int" where
  "availableHeight sourceCanvas splitY2 =
     (let totalHeight = cheight sourceCanvas in totalHeight - botStart sourceCanvas splitY2)"

text \<open>Part 1, the top band (lines 95 to 110).\<close>

definition partTop :: "env \<Rightarrow> canvas \<Rightarrow> pstate \<Rightarrow> pstate" where
  "partTop e sourceCanvas st =
     (let st1 = extractRegion e sourceCanvas 0 0 80 (topHeight sourceCanvas) ''m_5'' st;
          st2 = extractRegion e sourceCanvas 560 0 80 (topHeight sourceCanvas) ''m_6'' st1;
          st3 = extractRegion e sourceCanvas 80 0 240 (topHeight sourceCanvas) ''m_1'' st2
      in extractRegion e sourceCanvas 320 0 240 (topHeight sourceCanvas) ''m_2'' st3)"

text \<open>Part 2, the middle band (lines 113 to 121).\<close>

definition partMiddle :: "env \<Rightarrow> canvas \<Rightarrow> int \<Rightarrow> pstate \<Rightarrow> pstate" where
  "partMiddle e sourceCanvas splitY2 st =
     (let splitY1 = 640; midStart = splitY1
      in if midHeight sourceCanvas splitY2 > 0
         then extractRegion e sourceCanvas 0 midStart 640 (midHeight sourceCanvas splitY2) ''m_3'' st
         else st)"

text \<open>The canvas \<open>c4\<close> of part 3 when \<open>toBlob\<close> is called on it (lines 129 to 143).\<close>

definition m4Canvas :: "canvas \<Rightarrow> int \<Rightarrow> canvas" where
  "m4Canvas sourceCanvas splitY2 =
     (let m4Width = 640;
          m4Height = 480;
          c4 = createCanvas m4Width m4Height
      in if availableHeight sourceCanvas splitY2 > 0
         then drawImage c4 sourceCanvas 0 (botStart sourceCanvas splitY2) m4Width
                (min (availableHeight sourceCanvas splitY2) m4Height) 0 0
         else c4)"

text \<open>Part 3, the bottom slice (lines 123 to 162).\<close>

definition partBottom :: "env \<Rightarrow> canvas \<Rightarrow> int \<Rightarrow> pstate \<Rightarrow> pstate" where
  "partBottom e sourceCanvas splitY2 st =
     (let m4Width = 640;
          m4Height = 480
      in if getContext e (createCanvas m4Width m4Height)
         then pushBlob e (toBlob e (m4Canvas sourceCanvas splitY2)) ''m_4'' 0
                (botStart sourceCanvas splitY2) m4Width m4Height st
         else st)"

definition processSlices :: "env \<Rightarrow> canvas \<Rightarrow> int \<Rightarrow> error + SliceResult list" where
  "processSlices e sourceCanvas splitY2 =
     (if \<not> getContext e sourceCanvas then Inl (Error ''No context'')
      else
        let st0 = \<lparr>slices = [], urls = 0\<rparr>;
            st1 = partTop e sourceCanvas st0;
            st2 = partMiddle e sourceCanvas splitY2 st1;
            st3 = partBottom e sourceCanvas splitY2 st2
        in Inr (sortSlices (slices st3)))"

section \<open>resizeImageTo640\<close>

text \<open>
  An \<open>HTMLImageElement\<close>: \<open>width\<close> and \<open>height\<close> are unsigned 32-bit attributes, and the
  bitmap is read by column and row.
\<close>

record image =
  iwidth :: nat
  iheight :: nat
  ipixel_at :: "int \<Rightarrow> int \<Rightarrow> pixel"

text \<open>
  The source computes the target height with two operations on \<open>number\<close>s, which are IEEE
  754 doubles: a division and a multiplication, each rounded to the nearest double, ties to
  even. The doubles that occur are not negative; the finite ones are kept as the rationals
  they denote. \<open>exponentOf q\<close> is the binary exponent of a positive \<open>q\<close>, the \<open>e\<close> with
  \<open>2 ^ e \<le> q < 2 ^ (e + 1)\<close>, and a double has 53 significant bits. The operands here are
  integers below \<open>2 ^ 32\<close>, so neither overflow nor a subnormal result occurs.
\<close>

datatype number = Num rat | PosInfinity | NaN

definition exponentOf :: "rat \<Rightarrow> int" where
  "exponentOf q =
     (if 1 \<le> q then int (floorlog 2 (nat \<lfloor>q\<rfloor>)) - 1
      else - int (floorlog 2 (nat (\<lceil>1 / q\<rceil> - 1))))"

definition roundHalfEven :: "rat \<Rightarrow> int" where
  "roundHalfEven m =
     (let f = \<lfloor>m\<rfloor>; r = m - of_int f
      in if r < 1 / 2 then f else if 1 / 2 < r then f + 1 else if even f then f else f + 1)"

definition roundToDouble :: "rat \<Rightarrow> rat" where
  "roundToDouble q =
     (if q = 0 then 0
      else let ulp = 2 powi (exponentOf q - 52) in of_int (roundHalfEven (q / ulp)) * ulp)"

text \<open>\<open>a / b\<close> for integers \<open>a\<close>, \<open>b\<close> that are not negative.\<close>

definition numDivide :: "nat \<Rightarrow> nat \<Rightarrow> number" where
  "numDivide a b =
     (if b = 0 then (if a = 0 then NaN else PosInfinity)
      else Num (roundToDouble (of_nat a / of_nat b)))"

text \<open>\<open>a * x\<close> for an integer \<open>a\<close> that is not negative.\<close>

fun numTimes :: "nat \<Rightarrow> number \<Rightarrow> number" where
  "numTimes a (Num q) = Num (roundToDouble (of_nat a * q))"
| "numTimes a PosInfinity = (if a = 0 then NaN else PosInfinity)"
| "numTimes a NaN = NaN"

text \<open>
  Assigning a \<open>number\<close> to \<open>canvas.height\<close> converts it to an unsigned 32-bit integer: not a
  number and infinity become 0, anything else loses its fraction and is reduced modulo
  \<open>2 ^ 32\<close>.
\<close>

fun toUnsignedLong :: "number \<Rightarrow> int" where
  "toUnsignedLong (Num q) = \<lfloor>q\<rfloor> mod 2 ^ 32"
| "toUnsignedLong PosInfinity = 0"
| "toUnsignedLong NaN = 0"

text \<open>
  \<open>canvas.width\<close> and \<open>canvas.height\<close> reflect content attributes: a value above
  \<open>2 ^ 31 - 1\<close> is replaced by the attribute's default, 300 for the width and 150 for the
  height.
\<close>

definition reflectUnsignedLong :: "int \<Rightarrow> number \<Rightarrow> int" where
  "reflectUnsignedLong dflt v =
     (let n = toUnsignedLong v in if n \<le> 2147483647 then n else dflt)"

text \<open>
  The bitmap that \<open>ctx.drawImage(img, 0, 0, targetWidth, targetHeight)\<close> leaves on the canvas
  is the browser's smoothed scaling of the image, a function of the platform.
\<close>

record resizer =
  canvasContext :: "canvas \<Rightarrow> bool"
  smoothScale :: "image \<Rightarrow> nat \<Rightarrow> number \<Rightarrow> int \<Rightarrow> int \<Rightarrow> pixel"

text \<open>A canvas element is 300 by 150 until its size is set.\<close>

definition resizeImageTo640 :: "resizer \<Rightarrow> image \<Rightarrow> error + canvas" where
  "resizeImageTo640 p img =
     (if \<not> canvasContext p (createCanvas 300 150) then Inl (Error ''Could not get canvas context'')
      else
        let targetWidth = 640;
            scaleFactor = numDivide targetWidth (iwidth img);
            targetHeight = numTimes (iheight img) scaleFactor
        in Inr \<lparr>cwidth = reflectUnsignedLong 300 (Num (of_nat targetWidth)),
                 cheight = reflectUnsignedLong 150 targetHeight,
                 pixel_at = smoothScale p img targetWidth targetHeight\<rparr>)"

section \<open>Vocabulary of the properties\<close>

text \<open>
  A platform is reliable when every canvas gets a 2D context and every canvas with pixels
  is encoded.
\<close>

definition reliable :: "env \<Rightarrow> bool" where
  "reliable e \<longleftrightarrow>
     (\<forall>c. getContext e c) \<and> (\<forall>c. 0 < cwidth c \<and> 0 < cheight c \<longrightarrow> toBlob e c \<noteq> None)"

definition geometry :: "SliceResult \<Rightarrow> string \<times> int \<times> int \<times> int \<times> int" where
  "geometry sl = (slice_id sl, slice_x sl, slice_y sl, width sl, height sl)"

definition sliceNamed :: "string \<Rightarrow> SliceResult list \<Rightarrow> SliceResult list" where
  "sliceNamed nm r = filter (\<lambda>sl. slice_id sl = nm) r"

definition topGroup :: "SliceResult list \<Rightarrow> SliceResult list" where
  "topGroup r = filter (\<lambda>sl. slice_id sl \<in> set [''m_5'', ''m_6'', ''m_1'', ''m_2'']) r"

text \<open>The raster that is encoded for each region, read off the calls of \<open>processSlices\<close>.\<close>

definition regionRaster :: "canvas \<Rightarrow> int \<Rightarrow> string \<Rightarrow> canvas" where
  "regionRaster src splitY2 nm =
     (if nm = ''m_5'' then regionCanvas src 0 0 80 (topHeight src)
      else if nm = ''m_6'' then regionCanvas src 560 0 80 (topHeight src)
      else if nm = ''m_1'' then regionCanvas src 80 0 240 (topHeight src)
      else if nm = ''m_2'' then regionCanvas src 320 0 240 (topHeight src)
      else if nm = ''m_3'' then regionCanvas src 0 640 640 (midHeight src splitY2)
      else m4Canvas src splitY2)"

definition regionNames :: "string list" where
  "regionNames = [''m_5'', ''m_6'', ''m_1'', ''m_2'', ''m_3'', ''m_4'']"

text \<open>
  A slice carries a region when it has the region's name, a positive size and the
  encoding of the region's raster.
\<close>

definition carriesRegion :: "env \<Rightarrow> canvas \<Rightarrow> int \<Rightarrow> SliceResult \<Rightarrow> bool" where
  "carriesRegion e src s sl \<longleftrightarrow>
     slice_id sl \<in> set regionNames \<and> name sl = slice_id sl @ ''.png''
     \<and> toBlob e (regionRaster src s (slice_id sl)) = Some (blob sl)
     \<and> 0 < width sl \<and> 0 < height sl"

text \<open>
  The rectangle \<open>(x, y, w, h)\<close> recorded for each region, read off the calls of
  \<open>processSlices\<close>.
\<close>

definition regionRect :: "canvas \<Rightarrow> int \<Rightarrow> string \<Rightarrow> int \<times> int \<times> int \<times> int" where
  "regionRect src splitY2 nm =
     (if nm = ''m_5'' then (0, 0, 80, topHeight src)
      else if nm = ''m_6'' then (560, 0, 80, topHeight src)
      else if nm = ''m_1'' then (80, 0, 240, topHeight src)
      else if nm = ''m_2'' then (320, 0, 240, topHeight src)
      else if nm = ''m_3'' then (0, 640, 640, midHeight src splitY2)
      else (0, botStart src splitY2, 640, 480))"

text \<open>
  A region is attempted when its rectangle has a positive width and height and its canvas
  gets a 2D context; it is emitted when, moreover, the encoder yields a blob for its raster.
\<close>

definition attempted :: "env \<Rightarrow> canvas \<Rightarrow> int \<Rightarrow> string \<Rightarrow> bool" where
  "attempted e src splitY2 nm =
     (case regionRect src splitY2 nm of
        (x, y, w, h) \<Rightarrow> 0 < w \<and> 0 < h \<and> getContext e (createCanvas w h))"

definition emitted :: "env \<Rightarrow> canvas \<Rightarrow> int \<Rightarrow> string \<Rightarrow> bool" where
  "emitted e src splitY2 nm \<longleftrightarrow>
     attempted e src splitY2 nm \<and> toBlob e (regionRaster src splitY2 nm) \<noteq> None"

text \<open>The slice of a region: its name, its rectangle and the encoding of its raster.\<close>

definition sliceOfRegion :: "env \<Rightarrow> canvas \<Rightarrow> int \<Rightarrow> string \<Rightarrow> SliceResult \<Rightarrow> bool" where
  "sliceOfRegion e src splitY2 nm sl \<longleftrightarrow>
     slice_id sl = nm \<and> name sl = nm @ ''.png''
     \<and> toBlob e (regionRaster src splitY2 nm) = Some (blob sl)
     \<and> (slice_x sl, slice_y sl, width sl, height sl) = regionRect src splitY2 nm"

text \<open>The slice pushed for a canvas that is encoded, as the \<open>n\<close>-th object URL is created.\<close>

definition sliceFor ::
  "env \<Rightarrow> nat \<Rightarrow> canvas \<Rightarrow> string \<Rightarrow> int \<Rightarrow> int \<Rightarrow> int \<Rightarrow> int \<Rightarrow> SliceResult" where
  "sliceFor e n c nm x y w h =
     \<lparr>slice_id = nm, name = nm @ ''.png'', blob = the (toBlob e c),
      url = createObjectURL e n (the (toBlob e c)),
      width = w, height = h, slice_x = x, slice_y = y\<rparr>"

definition push :: "SliceResult \<Rightarrow> pstate \<Rightarrow> pstate" where
  "push sl st = \<lparr>slices = slices st @ [sl], urls = Suc (urls st)\<rparr>"

definition topSlice :: "env \<Rightarrow> canvas \<Rightarrow> nat \<Rightarrow> string \<Rightarrow> int \<Rightarrow> int \<Rightarrow> SliceResult" where
  "topSlice e src n nm x w =
     sliceFor e n (regionCanvas src x 0 w (topHeight src)) nm x 0 w (topHeight src)"

definition midSlices :: "env \<Rightarrow> canvas \<Rightarrow> int \<Rightarrow> SliceResult list" where
  "midSlices e src s =
     (if 0 < midHeight src s
      then [sliceFor e 4 (regionCanvas src 0 640 640 (midHeight src s))
              ''m_3'' 0 640 640 (midHeight src s)]
      else [])"

definition botSlice :: "env \<Rightarrow> canvas \<Rightarrow> int \<Rightarrow> SliceResult" where
  "botSlice e src s =
     sliceFor e ((if 0 < cheight src then 4 else 0) + (if 0 < midHeight src s then 1 else 0))
       (m4Canvas src s) ''m_4'' 0 (botStart src s) 640 480"

text \<open>The slices of a run on a reliable platform, in the order of their names.\<close>

definition expectedSlices :: "env \<Rightarrow> canvas \<Rightarrow> int \<Rightarrow> SliceResult list" where
  "expectedSlices e src s =
     (if 0 < cheight src
      then [topSlice e src 2 ''m_1'' 80 240, topSlice e src 3 ''m_2'' 320 240] else [])
     @ midSlices e src s @ [botSlice e src s]
     @ (if 0 < cheight src
        then [topSlice e src 0 ''m_5'' 0 80, topSlice e src 1 ''m_6'' 560 80] else [])"

subsection \<open>Concrete platforms and rasters\<close>

text \<open>A platform on which everything succeeds; a blob records the size of its canvas.\<close>

definition plainEnv :: env where
  "plainEnv =
     \<lparr>getContext = (\<lambda>c. True),
      toBlob = (\<lambda>c. Some [word_of_int (cwidth c div 8), word_of_int (cheight c div 8)]),
      createObjectURL = (\<lambda>n b. ''blob:'' @ replicate n (CHR ''i''))\<rparr>"

text \<open>A platform whose encoder yields nothing for the canvases that are 80 wide.\<close>

definition narrowFailsEnv :: env where
  "narrowFailsEnv =
     \<lparr>getContext = (\<lambda>c. True),
      toBlob = (\<lambda>c. if cwidth c = 80 then None
                     else Some [word_of_int (cwidth c div 8), word_of_int (cheight c div 8)]),
      createObjectURL = (\<lambda>n b. ''blob:'' @ replicate n (CHR ''i''))\<rparr>"

text \<open>A platform that gives no 2D context to any canvas.\<close>

definition noContextEnv :: env where
  "noContextEnv =
     \<lparr>getContext = (\<lambda>c. False), toBlob = (\<lambda>c. None), createObjectURL = (\<lambda>n b. [])\<rparr>"

text \<open>A raster 640 wide, of any height, whose pixel at \<open>(i, j)\<close> is \<open>i + 640 j + 1\<close>.\<close>

definition gradient :: "int \<Rightarrow> canvas" where
  "gradient h = \<lparr>cwidth = 640, cheight = h, pixel_at = (\<lambda>i j. word_of_int (i + 640 * j + 1))\<rparr>"

definition plainResizer :: resizer where
  "plainResizer = \<lparr>canvasContext = (\<lambda>c. True), smoothScale = (\<lambda>img w h i j. transparent)\<rparr>"

text \<open>A platform that gives no 2D context to the canvas of the resize.\<close>

definition noContextResizer :: resizer where
  "noContextResizer =
     \<lparr>canvasContext = (\<lambda>c. False), smoothScale = (\<lambda>img w h i j. transparent)\<rparr>"

definition imageOf :: "nat \<Rightarrow> nat \<Rightarrow> image" where
  "imageOf w h = \<lparr>iwidth = w, iheight = h, ipixel_at = (\<lambda>i j. transparent)\<rparr>"

definition canvasSize :: "canvas \<Rightarrow> int \<times> int" where
  "canvasSize c = (cwidth c, cheight c)"

section \<open>Sorting\<close>

lemma localeCompare_le: "localeCompare a b \<le> 0 \<longleftrightarrow> a \<le> b"
  by (auto simp: localeCompare_def)

lemma set_insertSlice: "set (insertSlice a bs) = insert a (set bs)"
  by (induction bs) auto

lemma set_sortSlices: "set (sortSlices xs) = set xs"
  by (induction xs) (auto simp: set_insertSlice)

lemma sorted_insertSlice:
  "sorted (map name bs) \<Longrightarrow> sorted (map name (insertSlice a bs))"
  by (induction bs) (auto simp: localeCompare_le set_insertSlice)

lemma sorted_sortSlices: "sorted (map name (sortSlices xs))"
  by (induction xs) (auto simp: sorted_insertSlice)

section \<open>Rasters of the regions\<close>

lemmas band_defs = topHeight_def midEnd_def midHeight_def botStart_def availableHeight_def Let_def

lemma cdims_regionCanvas [simp]:
  "cwidth (regionCanvas src x y w h) = w" "cheight (regionCanvas src x y w h) = h"
  by (simp_all add: regionCanvas_def drawImage_def createCanvas_def)

lemma cdims_m4Canvas [simp]:
  "cwidth (m4Canvas src s) = 640" "cheight (m4Canvas src s) = 480"
  by (simp_all add: m4Canvas_def drawImage_def createCanvas_def Let_def)

lemma getPixel_regionCanvas:
  "0 \<le> i \<Longrightarrow> i < w \<Longrightarrow> 0 \<le> j \<Longrightarrow> j < h \<Longrightarrow>
     getPixel (regionCanvas src x y w h) i j = getPixel src (x + i) (y + j)"
  by (simp add: getPixel_def regionCanvas_def drawImage_def createCanvas_def)

lemma getPixel_m4Canvas:
  "getPixel (m4Canvas src s) i j =
     (if 0 \<le> i \<and> i < 640 \<and> 0 \<le> j \<and> j < min (availableHeight src s) 480
      then getPixel src i (botStart src s + j) else transparent)"
  by (simp add: getPixel_def m4Canvas_def drawImage_def createCanvas_def band_defs)

section \<open>The run on a reliable platform\<close>

lemma reliable_toBlob:
  assumes "reliable e" "0 < cwidth c" "0 < cheight c"
  shows "toBlob e c = Some (the (toBlob e c))"
  using assms by (auto simp: reliable_def)

lemma extractRegion_reliable:
  assumes "reliable e" "0 < w" "0 < h"
  shows "extractRegion e src x y w h nm st =
           push (sliceFor e (urls st) (regionCanvas src x y w h) nm x y w h) st"
proof -
  obtain b where "toBlob e (regionCanvas src x y w h) = Some b"
    using reliable_toBlob [OF assms(1), of "regionCanvas src x y w h"] assms(2,3) by auto
  moreover have "getContext e (createCanvas w h)"
    using assms(1) by (simp add: reliable_def)
  ultimately show ?thesis
    using assms(2,3) by (simp add: extractRegion_def pushBlob_def push_def sliceFor_def)
qed

lemma partBottom_reliable:
  assumes "reliable e"
  shows "partBottom e src s st =
           push (sliceFor e (urls st) (m4Canvas src s) ''m_4'' 0 (botStart src s) 640 480) st"
proof -
  obtain b where "toBlob e (m4Canvas src s) = Some b"
    using reliable_toBlob [OF assms, of "m4Canvas src s"] by auto
  moreover have "getContext e (createCanvas 640 480)"
    using assms by (simp add: reliable_def)
  ultimately show ?thesis
    by (simp add: partBottom_def pushBlob_def push_def sliceFor_def Let_def)
qed

lemma partTop_reliable:
  assumes "reliable e"
  shows "partTop e src \<lparr>slices = [], urls = 0\<rparr> =
     (if 0 < cheight src
      then \<lparr>slices = [topSlice e src 0 ''m_5'' 0 80, topSlice e src 1 ''m_6'' 560 80,
                       topSlice e src 2 ''m_1'' 80 240, topSlice e src 3 ''m_2'' 320 240],
            urls = 4\<rparr>
      else \<lparr>slices = [], urls = 0\<rparr>)"
proof (cases "0 < cheight src")
  case True
  then have t: "0 < topHeight src" by (simp add: band_defs)
  show ?thesis using True
    by (simp add: partTop_def Let_def extractRegion_reliable [OF assms _ t] push_def
        topSlice_def eval_nat_numeral)
next
  case False
  then have "topHeight src \<le> 0" by (simp add: band_defs)
  with False show ?thesis by (simp add: partTop_def Let_def extractRegion_def)
qed

lemma partMiddle_reliable:
  assumes "reliable e"
  shows "partMiddle e src s st =
     (if 0 < midHeight src s
      then push (sliceFor e (urls st) (regionCanvas src 0 640 640 (midHeight src s))
                  ''m_3'' 0 640 640 (midHeight src s)) st
      else st)"
  by (simp add: partMiddle_def Let_def extractRegion_reliable [OF assms])

lemma sliceFor_fields [simp]:
  "slice_id (sliceFor e n c nm x y w h) = nm"
  "name (sliceFor e n c nm x y w h) = nm @ ''.png''"
  "width (sliceFor e n c nm x y w h) = w"
  "height (sliceFor e n c nm x y w h) = h"
  "slice_x (sliceFor e n c nm x y w h) = x"
  "slice_y (sliceFor e n c nm x y w h) = y"
  "blob (sliceFor e n c nm x y w h) = the (toBlob e c)"
  by (simp_all add: sliceFor_def)

lemma geometry_sliceFor [simp]: "geometry (sliceFor e n c nm x y w h) = (nm, x, y, w, h)"
  by (simp add: geometry_def)

lemma midHeight_pos_imp: "0 < midHeight src s \<Longrightarrow> 0 < cheight src"
  by (simp add: band_defs)

lemma processSlices_reliable:
  assumes "reliable e"
  shows "processSlices e src s = Inr (expectedSlices e src s)"
proof -
  have ctx: "getContext e src" using assms by (simp add: reliable_def)
  show ?thesis
    using midHeight_pos_imp [of src s]
    by (simp add: processSlices_def ctx Let_def partTop_reliable [OF assms]
        partMiddle_reliable [OF assms] partBottom_reliable [OF assms] push_def
        expectedSlices_def topSlice_def midSlices_def botSlice_def localeCompare_def)
qed

lemma sliceNamed_m4_expected: "sliceNamed ''m_4'' (expectedSlices e src s) = [botSlice e src s]"
  by (simp add: sliceNamed_def expectedSlices_def topSlice_def midSlices_def botSlice_def)

lemma sliceNamed_m3_expected: "sliceNamed ''m_3'' (expectedSlices e src s) = midSlices e src s"
  by (simp add: sliceNamed_def expectedSlices_def topSlice_def midSlices_def botSlice_def)

lemma topGroup_expected:
  "topGroup (expectedSlices e src s) =
     (if 0 < cheight src
      then [topSlice e src 2 ''m_1'' 80 240, topSlice e src 3 ''m_2'' 320 240,
            topSlice e src 0 ''m_5'' 0 80, topSlice e src 1 ''m_6'' 560 80]
      else [])"
  by (simp add: topGroup_def expectedSlices_def topSlice_def midSlices_def botSlice_def)

lemma reliable_plainEnv: "reliable plainEnv"
  by (simp add: reliable_def plainEnv_def)

section \<open>The run on any platform\<close>

lemma pushBlob_cases:
  assumes "sl \<in> set (slices (pushBlob e b nm x y w h st))"
  shows "sl \<in> set (slices st)
     \<or> (b = Some (blob sl) \<and> slice_id sl = nm \<and> name sl = nm @ ''.png''
        \<and> width sl = w \<and> height sl = h \<and> slice_x sl = x \<and> slice_y sl = y)"
  using assms by (auto simp: pushBlob_def split: option.splits)

lemma extractRegion_cases:
  assumes "sl \<in> set (slices (extractRegion e src x y w h nm st))"
  shows "sl \<in> set (slices st)
     \<or> (0 < w \<and> 0 < h \<and> toBlob e (regionCanvas src x y w h) = Some (blob sl)
        \<and> slice_id sl = nm \<and> name sl = nm @ ''.png''
        \<and> width sl = w \<and> height sl = h \<and> slice_x sl = x \<and> slice_y sl = y)"
  using assms pushBlob_cases [of sl e "toBlob e (regionCanvas src x y w h)" nm x y w h st]
  by (auto simp: extractRegion_def split: if_splits)

lemma partTop_carries:
  assumes "sl \<in> set (slices (partTop e src st))"
  shows "sl \<in> set (slices st) \<or> carriesRegion e src s sl"
proof -
  let ?t = "topHeight src"
  let ?s1 = "extractRegion e src 0 0 80 ?t ''m_5'' st"
  let ?s2 = "extractRegion e src 560 0 80 ?t ''m_6'' ?s1"
  let ?s3 = "extractRegion e src 80 0 240 ?t ''m_1'' ?s2"
  have 1: "sl \<in> set (slices ?s1) \<Longrightarrow> sl \<in> set (slices st) \<or> carriesRegion e src s sl"
    using extractRegion_cases [of sl e src 0 0 80 ?t "''m_5''" st]
    by (auto simp: carriesRegion_def regionNames_def regionRaster_def)
  have 2: "sl \<in> set (slices ?s2) \<Longrightarrow> sl \<in> set (slices ?s1) \<or> carriesRegion e src s sl"
    using extractRegion_cases [of sl e src 560 0 80 ?t "''m_6''" ?s1]
    by (auto simp: carriesRegion_def regionNames_def regionRaster_def)
  have 3: "sl \<in> set (slices ?s3) \<Longrightarrow> sl \<in> set (slices ?s2) \<or> carriesRegion e src s sl"
    using extractRegion_cases [of sl e src 80 0 240 ?t "''m_1''" ?s2]
    by (auto simp: carriesRegion_def regionNames_def regionRaster_def)
  have 4: "sl \<in> set (slices (partTop e src st)) \<Longrightarrow>
             sl \<in> set (slices ?s3) \<or> carriesRegion e src s sl"
    using extractRegion_cases [of sl e src 320 0 240 ?t "''m_2''" ?s3]
    by (auto simp: partTop_def Let_def carriesRegion_def regionNames_def regionRaster_def)
  from assms 1 2 3 4 show ?thesis by blast
qed

lemma partMiddle_carries:
  assumes "sl \<in> set (slices (partMiddle e src s st))"
  shows "sl \<in> set (slices st) \<or> carriesRegion e src s sl"
  using assms extractRegion_cases [of sl e src 0 640 640 "midHeight src s" "''m_3''" st]
  by (auto simp: partMiddle_def Let_def carriesRegion_def regionNames_def regionRaster_def
      split: if_splits)

lemma partBottom_carries:
  assumes "sl \<in> set (slices (partBottom e src s st))"
  shows "sl \<in> set (slices st) \<or> carriesRegion e src s sl"
  using assms
    pushBlob_cases [of sl e "toBlob e (m4Canvas src s)" "''m_4''" 0 "botStart src s" 640 480 st]
  by (auto simp: partBottom_def Let_def carriesRegion_def regionNames_def regionRaster_def
      split: if_splits)

lemma processSlices_carries:
  assumes "processSlices e src s = Inr r" "sl \<in> set r"
  shows "carriesRegion e src s sl"
proof -
  let ?st1 = "partTop e src \<lparr>slices = [], urls = 0\<rparr>"
  let ?st2 = "partMiddle e src s ?st1"
  let ?st3 = "partBottom e src s ?st2"
  from assms have "sl \<in> set (slices ?st3)"
    by (auto simp: processSlices_def Let_def set_sortSlices split: if_splits)
  then show ?thesis
    using partBottom_carries [of sl e src s ?st2] partMiddle_carries [of sl e src s ?st1]
      partTop_carries [of sl e src "\<lparr>slices = [], urls = 0\<rparr>" s]
    by auto
qed

section \<open>The bottom slice\<close>

text \<open>
  C1: on a reliable platform, for every source canvas and every \<open>splitY2\<close>, the run returns
  exactly one slice \<open>m_4\<close>; it is 640 wide and 480 high and carries the encoding of a 640 by
  480 raster. When \<open>availableHeight\<close>, the height less \<open>min splitY2 height\<close>, is positive,
  the top \<open>min availableHeight 480\<close> rows of that raster are the rows of the source from
  \<open>botStart\<close> on and the rows below are transparent; when it is not positive the whole
  raster is transparent.
\<close>

theorem m4_always_640_by_480:
  assumes "reliable e"
  shows "\<exists>r sl. processSlices e src splitY2 = Inr r \<and> sliceNamed ''m_4'' r = [sl]
     \<and> width sl = 640 \<and> height sl = 480
     \<and> toBlob e (m4Canvas src splitY2) = Some (blob sl)
     \<and> cwidth (m4Canvas src splitY2) = 640 \<and> cheight (m4Canvas src splitY2) = 480
     \<and> availableHeight src splitY2 = cheight src - min splitY2 (cheight src)
     \<and> botStart src splitY2 = min splitY2 (cheight src)
     \<and> (0 < availableHeight src splitY2 \<longrightarrow>
           (\<forall>i j. 0 \<le> i \<and> i < 640 \<and> 0 \<le> j \<and> j < min (availableHeight src splitY2) 480 \<longrightarrow>
              getPixel (m4Canvas src splitY2) i j = getPixel src i (botStart src splitY2 + j))
         \<and> (\<forall>i j. min (availableHeight src splitY2) 480 \<le> j \<longrightarrow>
              getPixel (m4Canvas src splitY2) i j = transparent))
     \<and> (availableHeight src splitY2 \<le> 0 \<longrightarrow>
           (\<forall>i j. getPixel (m4Canvas src splitY2) i j = transparent))"
proof -
  have run: "processSlices e src splitY2 = Inr (expectedSlices e src splitY2)"
    by (rule processSlices_reliable [OF assms])
  have enc: "toBlob e (m4Canvas src splitY2) = Some (blob (botSlice e src splitY2))"
    using reliable_toBlob [OF assms, of "m4Canvas src splitY2"] by (simp add: botSlice_def)
  have dims: "width (botSlice e src splitY2) = 640" "height (botSlice e src splitY2) = 480"
    by (simp_all add: botSlice_def)
  have bands: "availableHeight src splitY2 = cheight src - min splitY2 (cheight src)"
    "botStart src splitY2 = min splitY2 (cheight src)"
    by (simp_all add: band_defs)
  have px: "(0 < availableHeight src splitY2 \<longrightarrow>
           (\<forall>i j. 0 \<le> i \<and> i < 640 \<and> 0 \<le> j \<and> j < min (availableHeight src splitY2) 480 \<longrightarrow>
              getPixel (m4Canvas src splitY2) i j = getPixel src i (botStart src splitY2 + j))
         \<and> (\<forall>i j. min (availableHeight src splitY2) 480 \<le> j \<longrightarrow>
              getPixel (m4Canvas src splitY2) i j = transparent))
     \<and> (availableHeight src splitY2 \<le> 0 \<longrightarrow>
           (\<forall>i j. getPixel (m4Canvas src splitY2) i j = transparent))"
    by (auto simp: getPixel_m4Canvas)
  from run enc dims bands px sliceNamed_m4_expected [of e src splitY2] show ?thesis
    by (intro exI [of _ "expectedSlices e src splitY2"] exI [of _ "botSlice e src splitY2"])
       simp
qed

theorem m4_always_640_by_480_witness:
  "reliable plainEnv
   \<and> (\<exists>r sl. processSlices plainEnv (gradient 900) 800 = Inr r \<and> sliceNamed ''m_4'' r = [sl]
        \<and> width sl = 640 \<and> height sl = 480 \<and> blob sl = [80, 60])
   \<and> availableHeight (gradient 900) 800 = 100
   \<and> getPixel (m4Canvas (gradient 900) 800) 3 99 = getPixel (gradient 900) 3 899
   \<and> getPixel (gradient 900) 3 899 = 575364
   \<and> getPixel (m4Canvas (gradient 900) 800) 3 100 = transparent
   \<and> (\<exists>r sl. processSlices plainEnv (gradient 640) 800 = Inr r \<and> sliceNamed ''m_4'' r = [sl]
        \<and> width sl = 640 \<and> height sl = 480)
   \<and> availableHeight (gradient 640) 800 = 0
   \<and> getPixel (m4Canvas (gradient 640) 800) 3 0 = transparent"
proof -
  have h: "cheight (gradient 900) = 900" "cheight (gradient 640) = 640"
    by (simp_all add: gradient_def)
  have a: "availableHeight (gradient 900) 800 = 100" "botStart (gradient 900) 800 = 800"
    "availableHeight (gradient 640) 800 = 0"
    by (simp_all add: band_defs h)
  have b: "toBlob plainEnv c = Some [word_of_int (cwidth c div 8), word_of_int (cheight c div 8)]"
    for c by (simp add: plainEnv_def)
  have g: "getPixel (gradient 900) 3 899 = 575364"
    by (simp add: getPixel_def gradient_def)
  from m4_always_640_by_480 [OF reliable_plainEnv, of "gradient 900" 800]
    m4_always_640_by_480 [OF reliable_plainEnv, of "gradient 640" 800]
  show ?thesis
    unfolding a b
    apply (intro conjI)
    apply (rule reliable_plainEnv)
    apply (auto simp: g)
    done
qed

section \<open>The top group\<close>

text \<open>
  C3: on a reliable platform, for every source canvas of height \<open>h\<close> and every \<open>splitY2\<close>:
  if \<open>h \<ge> 640\<close> the run returns exactly four slices of the top group, \<open>m_1\<close> at \<open>x = 80\<close>
  240 wide, \<open>m_2\<close> at \<open>x = 320\<close> 240 wide, \<open>m_5\<close> at \<open>x = 0\<close> 80 wide and \<open>m_6\<close> at
  \<open>x = 560\<close> 80 wide, all at \<open>y = 0\<close> and 640 high; if \<open>0 < h < 640\<close> it returns the same
  four, each \<open>h\<close> high; if \<open>h \<le> 0\<close> it returns none of them.
\<close>

theorem top_group_heights:
  assumes "reliable e"
  shows "\<exists>r. processSlices e src splitY2 = Inr r
     \<and> (640 \<le> cheight src \<longrightarrow>
          map geometry (topGroup r) =
            [(''m_1'', 80, 0, 240, 640), (''m_2'', 320, 0, 240, 640),
             (''m_5'', 0, 0, 80, 640), (''m_6'', 560, 0, 80, 640)])
     \<and> (0 < cheight src \<and> cheight src < 640 \<longrightarrow>
          map geometry (topGroup r) =
            [(''m_1'', 80, 0, 240, cheight src), (''m_2'', 320, 0, 240, cheight src),
             (''m_5'', 0, 0, 80, cheight src), (''m_6'', 560, 0, 80, cheight src)])
     \<and> (cheight src \<le> 0 \<longrightarrow> topGroup r = [])"
proof -
  have run: "processSlices e src splitY2 = Inr (expectedSlices e src splitY2)"
    by (rule processSlices_reliable [OF assms])
  show ?thesis
    by (rule exI [of _ "expectedSlices e src splitY2"])
       (simp add: run topGroup_expected topSlice_def band_defs)
qed

theorem top_group_heights_witness:
  "reliable plainEnv
   \<and> 640 \<le> cheight (gradient 900)
   \<and> (\<exists>r. processSlices plainEnv (gradient 900) 800 = Inr r
        \<and> map geometry (topGroup r) =
            [(''m_1'', 80, 0, 240, 640), (''m_2'', 320, 0, 240, 640),
             (''m_5'', 0, 0, 80, 640), (''m_6'', 560, 0, 80, 640)])
   \<and> 0 < cheight (gradient 300) \<and> cheight (gradient 300) < 640
   \<and> (\<exists>r. processSlices plainEnv (gradient 300) 800 = Inr r
        \<and> map geometry (topGroup r) =
            [(''m_1'', 80, 0, 240, 300), (''m_2'', 320, 0, 240, 300),
             (''m_5'', 0, 0, 80, 300), (''m_6'', 560, 0, 80, 300)])
   \<and> cheight (gradient 0) \<le> 0
   \<and> (\<exists>r. processSlices plainEnv (gradient 0) 800 = Inr r \<and> topGroup r = [])"
proof -
  have h: "cheight (gradient 900) = 900" "cheight (gradient 300) = 300" "cheight (gradient 0) = 0"
    by (simp_all add: gradient_def)
  from top_group_heights [OF reliable_plainEnv, of "gradient 900" 800]
    top_group_heights [OF reliable_plainEnv, of "gradient 300" 800]
    top_group_heights [OF reliable_plainEnv, of "gradient 0" 800]
  show ?thesis
    unfolding h by (simp add: reliable_plainEnv)
qed

section \<open>The middle slice\<close>

text \<open>
  C4: on a reliable platform, for every source canvas of height \<open>h\<close> and every \<open>splitY2\<close>,
  the run returns the slice \<open>m_3\<close> if and only if \<open>midHeight\<close>, which is
  \<open>min splitY2 h - 640\<close>, is positive; the slice then has the rectangle \<open>x = 0\<close>, \<open>y = 640\<close>,
  640 wide and \<open>midHeight\<close> high, and carries the encoding of a raster whose pixels are those
  of that rectangle of the source. When \<open>splitY2 < 640\<close>, \<open>midHeight\<close> is negative, there is
  no \<open>m_3\<close>, and the middle part leaves the state as it is: nothing of a negative size is
  extracted.
\<close>

theorem m3_iff_midHeight_positive:
  assumes "reliable e"
  shows "\<exists>r. processSlices e src splitY2 = Inr r
     \<and> midHeight src splitY2 = min splitY2 (cheight src) - 640
     \<and> (0 < midHeight src splitY2 \<longrightarrow>
           (\<exists>sl. sliceNamed ''m_3'' r = [sl]
              \<and> geometry sl = (''m_3'', 0, 640, 640, midHeight src splitY2)
              \<and> toBlob e (regionCanvas src 0 640 640 (midHeight src splitY2)) = Some (blob sl)
              \<and> cwidth (regionCanvas src 0 640 640 (midHeight src splitY2)) = 640
              \<and> cheight (regionCanvas src 0 640 640 (midHeight src splitY2))
                  = midHeight src splitY2
              \<and> (\<forall>i j. 0 \<le> i \<and> i < 640 \<and> 0 \<le> j \<and> j < midHeight src splitY2 \<longrightarrow>
                   getPixel (regionCanvas src 0 640 640 (midHeight src splitY2)) i j
                     = getPixel src i (640 + j))))
     \<and> (midHeight src splitY2 \<le> 0 \<longrightarrow> sliceNamed ''m_3'' r = [])
     \<and> (splitY2 < 640 \<longrightarrow>
           midHeight src splitY2 < 0 \<and> sliceNamed ''m_3'' r = []
           \<and> (\<forall>st. partMiddle e src splitY2 st = st))"
proof -
  let ?mid = "midHeight src splitY2"
  have run: "processSlices e src splitY2 = Inr (expectedSlices e src splitY2)"
    by (rule processSlices_reliable [OF assms])
  have val: "?mid = min splitY2 (cheight src) - 640"
    by (simp add: band_defs)
  have pos: "\<exists>sl. midSlices e src splitY2 = [sl]
                 \<and> geometry sl = (''m_3'', 0, 640, 640, ?mid)
                 \<and> toBlob e (regionCanvas src 0 640 640 ?mid) = Some (blob sl)
                 \<and> cwidth (regionCanvas src 0 640 640 ?mid) = 640
                 \<and> cheight (regionCanvas src 0 640 640 ?mid) = ?mid
                 \<and> (\<forall>i j. 0 \<le> i \<and> i < 640 \<and> 0 \<le> j \<and> j < ?mid \<longrightarrow>
                      getPixel (regionCanvas src 0 640 640 ?mid) i j
                        = getPixel src i (640 + j))" if "0 < ?mid"
  proof -
    have "toBlob e (regionCanvas src 0 640 640 ?mid)
            = Some (the (toBlob e (regionCanvas src 0 640 640 ?mid)))"
      using reliable_toBlob [OF assms, of "regionCanvas src 0 640 640 ?mid"] that by simp
    with that show ?thesis
      by (simp add: midSlices_def getPixel_regionCanvas)
  qed
  have none: "midSlices e src splitY2 = []" if "?mid \<le> 0"
    using that by (auto simp: midSlices_def)
  have neg: "?mid < 0" if "splitY2 < 640"
    using that by (simp add: band_defs)
  have guard: "partMiddle e src splitY2 st = st" if "splitY2 < 640" for st
    using neg [OF that] by (simp add: partMiddle_def Let_def)
  show ?thesis
    apply (rule exI [of _ "expectedSlices e src splitY2"])
    apply (simp only: run sliceNamed_m3_expected)
    using pos none guard neg val by auto
qed

theorem m3_iff_midHeight_positive_witness:
  "reliable plainEnv
   \<and> 0 < midHeight (gradient 900) 800
   \<and> (\<exists>r sl. processSlices plainEnv (gradient 900) 800 = Inr r
        \<and> sliceNamed ''m_3'' r = [sl] \<and> geometry sl = (''m_3'', 0, 640, 640, 160)
        \<and> blob sl = [80, 20])
   \<and> getPixel (regionCanvas (gradient 900) 0 640 640 160) 5 7 = getPixel (gradient 900) 5 647
   \<and> getPixel (gradient 900) 5 647 = 414086
   \<and> midHeight (gradient 640) 800 \<le> 0
   \<and> (\<exists>r. processSlices plainEnv (gradient 640) 800 = Inr r \<and> sliceNamed ''m_3'' r = [])
   \<and> (500 :: int) < 640 \<and> midHeight (gradient 900) 500 = - 140
   \<and> (\<exists>r. processSlices plainEnv (gradient 900) 500 = Inr r \<and> sliceNamed ''m_3'' r = [])
   \<and> partMiddle plainEnv (gradient 900) 500 \<lparr>slices = [], urls = 0\<rparr> = \<lparr>slices = [], urls = 0\<rparr>"
proof -
  have h: "cheight (gradient 900) = 900" "cheight (gradient 640) = 640"
    by (simp_all add: gradient_def)
  have m: "midHeight (gradient 900) 800 = 160" "midHeight (gradient 640) 800 = 0"
    "midHeight (gradient 900) 500 = - 140"
    by (simp_all add: band_defs h)
  have b: "toBlob plainEnv c = Some [word_of_int (cwidth c div 8), word_of_int (cheight c div 8)]"
    for c by (simp add: plainEnv_def)
  have g: "getPixel (gradient 900) 5 647 = 414086"
    by (simp add: getPixel_def gradient_def)
  from m3_iff_midHeight_positive [OF reliable_plainEnv, of "gradient 900" 800]
    m3_iff_midHeight_positive [OF reliable_plainEnv, of "gradient 640" 800]
    m3_iff_midHeight_positive [OF reliable_plainEnv, of "gradient 900" 500]
  show ?thesis
    unfolding m b
    apply (intro conjI)
    apply (rule reliable_plainEnv)
    apply (auto simp: g)
    done
qed

section \<open>Sizes of the slices\<close>

text \<open>
  C8: for every platform, every source canvas and every \<open>splitY2\<close>, every slice the run
  returns has a positive width and a positive height. A region of no area is dropped
  without notice: \<open>extract\<close> leaves the state as it is when the width or the height is not
  positive. The bottom slice \<open>m_4\<close> is the exception: on a reliable platform it is returned
  at 640 by 480 whatever the source holds.
\<close>

theorem slices_have_positive_area:
  "processSlices e src splitY2 = Inr r \<Longrightarrow>
     (\<forall>sl \<in> set r. 0 < width sl \<and> 0 < height sl)
     \<and> (\<forall>x y w h nm st. h \<le> 0 \<or> w \<le> 0 \<longrightarrow> extractRegion e src x y w h nm st = st)
     \<and> (reliable e \<longrightarrow>
          (\<exists>sl \<in> set r. slice_id sl = ''m_4'' \<and> width sl = 640 \<and> height sl = 480))"
proof -
  assume run: "processSlices e src splitY2 = Inr r"
  have pos: "\<forall>sl \<in> set r. 0 < width sl \<and> 0 < height sl"
    using processSlices_carries [OF run] by (simp add: carriesRegion_def)
  have skip: "\<forall>x y w h nm st. h \<le> 0 \<or> w \<le> 0 \<longrightarrow> extractRegion e src x y w h nm st = st"
    by (simp add: extractRegion_def)
  have bot: "\<exists>sl \<in> set r. slice_id sl = ''m_4'' \<and> width sl = 640 \<and> height sl = 480"
    if "reliable e"
  proof -
    from processSlices_reliable [OF that, of src splitY2] run
    have "r = expectedSlices e src splitY2" by simp
    then have "botSlice e src splitY2 \<in> set r" by (simp add: expectedSlices_def)
    then show ?thesis by (rule bexI [rotated]) (simp add: botSlice_def)
  qed
  from pos skip bot show ?thesis by blast
qed

theorem slices_have_positive_area_witness:
  "processSlices plainEnv (gradient 0) 800 = Inr [botSlice plainEnv (gradient 0) 800]
   \<and> geometry (botSlice plainEnv (gradient 0) 800) = (''m_4'', 0, 0, 640, 480)
   \<and> 0 < width (botSlice plainEnv (gradient 0) 800)
   \<and> 0 < height (botSlice plainEnv (gradient 0) 800)
   \<and> topHeight (gradient 0) \<le> 0
   \<and> extractRegion plainEnv (gradient 0) 0 0 80 (topHeight (gradient 0)) ''m_5''
        \<lparr>slices = [], urls = 0\<rparr> = \<lparr>slices = [], urls = 0\<rparr>
   \<and> reliable plainEnv"
proof -
  have h: "cheight (gradient 0) = 0" by (simp add: gradient_def)
  have t: "topHeight (gradient 0) = 0" "midHeight (gradient 0) 800 = - 640"
    "botStart (gradient 0) 800 = 0"
    by (simp_all add: band_defs h)
  have run: "processSlices plainEnv (gradient 0) 800 = Inr [botSlice plainEnv (gradient 0) 800]"
    by (simp add: processSlices_reliable [OF reliable_plainEnv] expectedSlices_def midSlices_def
        h t)
  have g: "geometry (botSlice plainEnv (gradient 0) 800) = (''m_4'', 0, 0, 640, 480)"
    by (simp add: botSlice_def t)
  from slices_have_positive_area [OF run] g run show ?thesis
    by (simp add: t reliable_plainEnv)
qed

section \<open>The origin of the bottom slice\<close>

text \<open>
  C10: on a reliable platform, for every source canvas of height \<open>h\<close> and every \<open>splitY2\<close>,
  the \<open>y\<close> recorded in the slice \<open>m_4\<close> is \<open>min splitY2 h\<close>, the clamped \<open>botStart\<close>, not
  \<open>splitY2\<close> itself: it is \<open>h\<close> when \<open>h < splitY2\<close>. When \<open>splitY2 < 640\<close> it lies above 640,
  and the rows of \<open>m_4\<close> taken from above the lower edge of the top band are rows the slices
  of the top group hold as well: row \<open>j\<close> of \<open>m_4\<close> is row \<open>splitY2 + j\<close> of each of them.
\<close>

theorem m4_origin_is_clamped:
  assumes "reliable e"
  shows "\<exists>r sl. processSlices e src splitY2 = Inr r \<and> sliceNamed ''m_4'' r = [sl]
     \<and> slice_y sl = min splitY2 (cheight src)
     \<and> toBlob e (m4Canvas src splitY2) = Some (blob sl)
     \<and> (cheight src < splitY2 \<longrightarrow> slice_y sl = cheight src \<and> slice_y sl \<noteq> splitY2)
     \<and> (splitY2 < 640 \<longrightarrow>
           slice_y sl < 640
           \<and> (\<forall>(nm, x, w) \<in> set [(''m_5'', 0, 80), (''m_6'', 560, 80),
                                  (''m_1'', 80, 240), (''m_2'', 320, 240)].
                (0 < cheight src \<longrightarrow>
                   (\<exists>tl. sliceNamed nm r = [tl] \<and> slice_y tl = 0 \<and> slice_x tl = x
                      \<and> height tl = topHeight src
                      \<and> toBlob e (regionCanvas src x 0 w (topHeight src)) = Some (blob tl)))
                \<and> (\<forall>i j. 0 \<le> i \<and> i < w \<and> 0 \<le> j \<and> j < 480
                         \<and> 0 \<le> splitY2 \<and> splitY2 + j < topHeight src \<longrightarrow>
                      getPixel (m4Canvas src splitY2) (x + i) j
                        = getPixel (regionCanvas src x 0 w (topHeight src)) i (splitY2 + j))))"
proof -
  let ?r = "expectedSlices e src splitY2"
  have run: "processSlices e src splitY2 = Inr ?r"
    by (rule processSlices_reliable [OF assms])
  have enc: "toBlob e (m4Canvas src splitY2) = Some (blob (botSlice e src splitY2))"
    using reliable_toBlob [OF assms, of "m4Canvas src splitY2"] by (simp add: botSlice_def)
  have y: "slice_y (botSlice e src splitY2) = min splitY2 (cheight src)"
    by (simp add: botSlice_def band_defs)
  have top: "\<exists>tl. sliceNamed nm ?r = [tl] \<and> slice_y tl = 0 \<and> slice_x tl = x
               \<and> height tl = topHeight src
               \<and> toBlob e (regionCanvas src x 0 w (topHeight src)) = Some (blob tl)"
    if "0 < cheight src"
      "(nm, x, w) \<in> set [(''m_5'', 0, 80), (''m_6'', 560, 80), (''m_1'', 80, 240), (''m_2'', 320, 240)]"
    for nm x w
  proof -
    have w: "0 < w" using that(2) by auto
    have t: "0 < topHeight src" using that(1) by (simp add: band_defs)
    have b: "toBlob e (regionCanvas src x 0 w (topHeight src))
               = Some (the (toBlob e (regionCanvas src x 0 w (topHeight src))))"
      using reliable_toBlob [OF assms, of "regionCanvas src x 0 w (topHeight src)"] w t by simp
    have "sliceNamed nm ?r = [sliceFor e (if nm = ''m_5'' then 0 else if nm = ''m_6'' then 1
             else if nm = ''m_1'' then 2 else 3) (regionCanvas src x 0 w (topHeight src))
             nm x 0 w (topHeight src)]"
      using that
      by (auto simp: sliceNamed_def expectedSlices_def topSlice_def midSlices_def botSlice_def)
    with b show ?thesis by simp
  qed
  have px: "getPixel (m4Canvas src splitY2) (x + i) j
              = getPixel (regionCanvas src x 0 w (topHeight src)) i (splitY2 + j)"
    if "0 \<le> i" "i < w" "0 \<le> j" "j < 480" "0 \<le> splitY2" "splitY2 + j < topHeight src"
      "(nm, x, w) \<in> set [(''m_5'', 0, 80), (''m_6'', 560, 80), (''m_1'', 80, 240), (''m_2'', 320, 240)]"
    for nm x w i j
  proof -
    from that(7) have xw: "0 \<le> x" "x + w \<le> 640" by auto
    from that(3,5,6) have lt: "splitY2 < cheight src" "splitY2 + j < cheight src"
      by (simp_all add: band_defs)
    then have bands: "botStart src splitY2 = splitY2"
      "availableHeight src splitY2 = cheight src - splitY2"
      by (simp_all add: band_defs)
    have "getPixel (m4Canvas src splitY2) (x + i) j = getPixel src (x + i) (splitY2 + j)"
      using that(1-4) xw lt by (simp add: getPixel_m4Canvas bands)
    moreover have "getPixel (regionCanvas src x 0 w (topHeight src)) i (splitY2 + j)
                     = getPixel src (x + i) (0 + (splitY2 + j))"
      using that(1-6) by (intro getPixel_regionCanvas) simp_all
    ultimately show ?thesis by simp
  qed
  have ov: "\<forall>(nm, x, w) \<in> set [(''m_5'', 0, 80), (''m_6'', 560, 80),
                                  (''m_1'', 80, 240), (''m_2'', 320, 240)].
                (0 < cheight src \<longrightarrow>
                   (\<exists>tl. sliceNamed nm ?r = [tl] \<and> slice_y tl = 0 \<and> slice_x tl = x
                      \<and> height tl = topHeight src
                      \<and> toBlob e (regionCanvas src x 0 w (topHeight src)) = Some (blob tl)))
                \<and> (\<forall>i j. 0 \<le> i \<and> i < w \<and> 0 \<le> j \<and> j < 480
                         \<and> 0 \<le> splitY2 \<and> splitY2 + j < topHeight src \<longrightarrow>
                      getPixel (m4Canvas src splitY2) (x + i) j
                        = getPixel (regionCanvas src x 0 w (topHeight src)) i (splitY2 + j))"
  proof (rule ballI)
    fix p :: "string \<times> int \<times> int"
    assume mem: "p \<in> set [(''m_5'', 0, 80), (''m_6'', 560, 80), (''m_1'', 80, 240), (''m_2'', 320, 240)]"
    obtain nm x w where p: "p = (nm, x, w)" by (cases p)
    show "case p of (nm, x, w) \<Rightarrow>
                (0 < cheight src \<longrightarrow>
                   (\<exists>tl. sliceNamed nm ?r = [tl] \<and> slice_y tl = 0 \<and> slice_x tl = x
                      \<and> height tl = topHeight src
                      \<and> toBlob e (regionCanvas src x 0 w (topHeight src)) = Some (blob tl)))
                \<and> (\<forall>i j. 0 \<le> i \<and> i < w \<and> 0 \<le> j \<and> j < 480
                         \<and> 0 \<le> splitY2 \<and> splitY2 + j < topHeight src \<longrightarrow>
                      getPixel (m4Canvas src splitY2) (x + i) j
                        = getPixel (regionCanvas src x 0 w (topHeight src)) i (splitY2 + j))"
      unfolding p prod.case
      using top [of nm x w] px [of _ w _ nm x] mem [unfolded p] by blast
  qed
  have above: "slice_y (botSlice e src splitY2) < 640" if "splitY2 < 640"
    using that by (simp add: y)
  have clamp: "slice_y (botSlice e src splitY2) = cheight src
      \<and> slice_y (botSlice e src splitY2) \<noteq> splitY2" if "cheight src < splitY2"
    using that by (simp add: y)
  from run sliceNamed_m4_expected [of e src splitY2] enc y ov above clamp show ?thesis
    by (intro exI [of _ ?r] exI [of _ "botSlice e src splitY2"]) blast
qed


theorem m4_origin_is_clamped_witness:
  "reliable plainEnv
   \<and> cheight (gradient 900) < 1000
   \<and> (\<exists>r sl. processSlices plainEnv (gradient 900) 1000 = Inr r \<and> sliceNamed ''m_4'' r = [sl]
        \<and> slice_y sl = 900)
   \<and> (500 :: int) < 640 \<and> 0 < cheight (gradient 900)
   \<and> (\<exists>r sl tl. processSlices plainEnv (gradient 900) 500 = Inr r
        \<and> sliceNamed ''m_4'' r = [sl] \<and> slice_y sl = 500
        \<and> sliceNamed ''m_5'' r = [tl] \<and> slice_y tl = 0 \<and> height tl = 640)
   \<and> getPixel (m4Canvas (gradient 900) 500) 3 10
       = getPixel (regionCanvas (gradient 900) 0 0 80 640) 3 510
   \<and> getPixel (m4Canvas (gradient 900) 500) 3 10 = 326404"
proof -
  have h: "cheight (gradient 900) = 900" by (simp add: gradient_def)
  have t: "topHeight (gradient 900) = 640" by (simp add: band_defs h)
  have a: "\<exists>r sl. processSlices plainEnv (gradient 900) 1000 = Inr r
             \<and> sliceNamed ''m_4'' r = [sl] \<and> slice_y sl = 900"
    using m4_origin_is_clamped [OF reliable_plainEnv, of "gradient 900" 1000]
    unfolding h by auto
  from m4_origin_is_clamped [OF reliable_plainEnv, of "gradient 900" 500]
  obtain r sl where b: "processSlices plainEnv (gradient 900) 500 = Inr r"
      "sliceNamed ''m_4'' r = [sl]" "slice_y sl = 500"
    and ov: "\<forall>(nm, x, w) \<in> set [(''m_5'', 0, 80), (''m_6'', 560, 80),
                                  (''m_1'', 80, 240), (''m_2'', 320, 240)].
                (0 < (900 :: int) \<longrightarrow>
                   (\<exists>tl. sliceNamed nm r = [tl] \<and> slice_y tl = 0 \<and> slice_x tl = x
                      \<and> height tl = 640
                      \<and> toBlob plainEnv (regionCanvas (gradient 900) x 0 w 640) = Some (blob tl)))
                \<and> (\<forall>i j. 0 \<le> i \<and> i < w \<and> 0 \<le> j \<and> j < 480
                         \<and> 0 \<le> (500 :: int) \<and> 500 + j < 640 \<longrightarrow>
                      getPixel (m4Canvas (gradient 900) 500) (x + i) j
                        = getPixel (regionCanvas (gradient 900) x 0 w 640) i (500 + j))"
    unfolding h t by auto
  from ov have c: "\<exists>tl. sliceNamed ''m_5'' r = [tl] \<and> slice_y tl = 0 \<and> height tl = 640"
    by auto
  from ov have d: "getPixel (m4Canvas (gradient 900) 500) (0 + 3) 10
       = getPixel (regionCanvas (gradient 900) 0 0 80 640) 3 (500 + 10)"
    by fastforce
  have e: "getPixel (regionCanvas (gradient 900) 0 0 80 640) 3 510 = 326404"
    by (simp add: getPixel_regionCanvas) (simp add: getPixel_def gradient_def)
  from a b c d e show ?thesis
    by (auto simp: reliable_plainEnv h)
qed

section \<open>Scenario A\<close>

text \<open>
  C9, as the run has it: for a source canvas 640 wide and 640 high and \<open>splitY2 = 800\<close>, on
  a reliable platform, the run returns exactly the four slices of the top group, each 640
  high (\<open>m_1\<close> 240 by 640 at \<open>x = 80\<close>, \<open>m_2\<close> 240 by 640 at \<open>x = 320\<close>, \<open>m_5\<close> 80 by 640 at
  \<open>x = 0\<close>, \<open>m_6\<close> 80 by 640 at \<open>x = 560\<close>) and the slice \<open>m_4\<close>; the height of \<open>m_3\<close> is
  \<open>min 800 640 - 640 = 0\<close>, which is not positive, so there is no \<open>m_3\<close>; \<open>botStart\<close> is 640,
  \<open>availableHeight\<close> is 0, and \<open>m_4\<close> is the encoding of a fully transparent 640 by 480
  raster.
\<close>

theorem scenario_A:
  assumes "reliable e" "cwidth src = 640" "cheight src = 640"
  shows "\<exists>r. processSlices e src 800 = Inr r
     \<and> map geometry r =
         [(''m_1'', 80, 0, 240, 640), (''m_2'', 320, 0, 240, 640), (''m_4'', 0, 640, 640, 480),
          (''m_5'', 0, 0, 80, 640), (''m_6'', 560, 0, 80, 640)]
     \<and> midHeight src 800 = 0 \<and> sliceNamed ''m_3'' r = []
     \<and> botStart src 800 = 640 \<and> availableHeight src 800 = 0
     \<and> m4Canvas src 800 = createCanvas 640 480
     \<and> (\<exists>sl. sliceNamed ''m_4'' r = [sl] \<and> toBlob e (createCanvas 640 480) = Some (blob sl))
     \<and> (\<forall>i j. getPixel (createCanvas 640 480) i j = transparent)"
proof -
  let ?r = "expectedSlices e src 800"
  have run: "processSlices e src 800 = Inr ?r"
    by (rule processSlices_reliable [OF assms(1)])
  have bands: "topHeight src = 640" "midHeight src 800 = 0" "botStart src 800 = 640"
    "availableHeight src 800 = 0"
    by (simp_all add: band_defs assms(3))
  have blank: "m4Canvas src 800 = createCanvas 640 480"
    by (simp add: m4Canvas_def Let_def bands)
  have geo: "map geometry ?r =
         [(''m_1'', 80, 0, 240, 640), (''m_2'', 320, 0, 240, 640), (''m_4'', 0, 640, 640, 480),
          (''m_5'', 0, 0, 80, 640), (''m_6'', 560, 0, 80, 640)]"
    by (simp add: expectedSlices_def topSlice_def midSlices_def botSlice_def bands assms(3))
  have no3: "sliceNamed ''m_3'' ?r = []"
    by (simp add: sliceNamed_m3_expected midSlices_def bands)
  have enc: "toBlob e (createCanvas 640 480) = Some (blob (botSlice e src 800))"
    using reliable_toBlob [OF assms(1), of "m4Canvas src 800"]
    by (simp add: botSlice_def blank [symmetric])
  have px: "\<forall>i j. getPixel (createCanvas 640 480) i j = transparent"
    by (simp add: getPixel_def createCanvas_def)
  from run geo bands no3 blank enc px sliceNamed_m4_expected [of e src 800] show ?thesis
    by (intro exI [of _ ?r]) simp
qed

theorem scenario_A_witness:
  "reliable plainEnv \<and> cwidth (gradient 640) = 640 \<and> cheight (gradient 640) = 640
   \<and> (\<exists>r. processSlices plainEnv (gradient 640) 800 = Inr r
        \<and> map geometry r =
           [(''m_1'', 80, 0, 240, 640), (''m_2'', 320, 0, 240, 640), (''m_4'', 0, 640, 640, 480),
            (''m_5'', 0, 0, 80, 640), (''m_6'', 560, 0, 80, 640)]
        \<and> sliceNamed ''m_3'' r = []
        \<and> (\<exists>sl. sliceNamed ''m_4'' r = [sl] \<and> blob sl = [80, 60]))
   \<and> midHeight (gradient 640) 800 = 0
   \<and> m4Canvas (gradient 640) 800 = createCanvas 640 480"
proof -
  have d: "cwidth (gradient 640) = 640" "cheight (gradient 640) = 640"
    by (simp_all add: gradient_def)
  have b: "toBlob plainEnv (createCanvas 640 480) = Some [80, 60]"
    by (simp add: plainEnv_def createCanvas_def)
  from scenario_A [OF reliable_plainEnv d] show ?thesis
    unfolding b by (auto simp: reliable_plainEnv d)
qed

theorem scenario_A_midHeight_counterexample:
  "cwidth (gradient 640) = 640 \<and> cheight (gradient 640) = 640
   \<and> midHeight (gradient 640) 800 = 0 \<and> midHeight (gradient 640) 800 \<noteq> - 160"
  by (simp add: band_defs gradient_def)

section \<open>When the encoder yields nothing\<close>

lemma extractRegion_general:
  "\<exists>a. slices (extractRegion e src x y w h nm st) = slices st @ a \<and>
     (if 0 < w \<and> 0 < h \<and> getContext e (createCanvas w h)
         \<and> toBlob e (regionCanvas src x y w h) \<noteq> None
      then \<exists>sl. a = [sl] \<and> slice_id sl = nm \<and> name sl = nm @ ''.png''
             \<and> toBlob e (regionCanvas src x y w h) = Some (blob sl)
             \<and> (slice_x sl, slice_y sl, width sl, height sl) = (x, y, w, h)
      else a = [])"
  by (auto simp: extractRegion_def pushBlob_def split: option.splits)

lemma extractRegion_region:
  assumes "regionRect src s nm = (x, y, w, h)"
    and "regionRaster src s nm = regionCanvas src x y w h"
  shows "\<exists>a. slices (extractRegion e src x y w h nm st) = slices st @ a \<and>
     (if emitted e src s nm then \<exists>sl. a = [sl] \<and> sliceOfRegion e src s nm sl else a = [])"
  using extractRegion_general [of e src x y w h nm st] assms
  by (auto simp: emitted_def attempted_def sliceOfRegion_def)

lemma partBottom_region:
  "\<exists>a. slices (partBottom e src s st) = slices st @ a \<and>
     (if emitted e src s ''m_4'' then \<exists>sl. a = [sl] \<and> sliceOfRegion e src s ''m_4'' sl
      else a = [])"
  by (auto simp: partBottom_def pushBlob_def emitted_def attempted_def sliceOfRegion_def
      regionRect_def regionRaster_def Let_def split: option.splits)

lemma partMiddle_region:
  "\<exists>a. slices (partMiddle e src s st) = slices st @ a \<and>
     (if emitted e src s ''m_3'' then \<exists>sl. a = [sl] \<and> sliceOfRegion e src s ''m_3'' sl
      else a = [])"
proof (cases "0 < midHeight src s")
  case True
  then show ?thesis
    using extractRegion_region [of src s "''m_3''" 0 640 640 "midHeight src s" e st]
    by (simp add: partMiddle_def Let_def regionRect_def regionRaster_def)
next
  case False
  then show ?thesis
    by (simp add: partMiddle_def Let_def emitted_def attempted_def regionRect_def)
qed

lemma partTop_region:
  "\<exists>a5 a6 a1 a2. slices (partTop e src st) = slices st @ a5 @ a6 @ a1 @ a2
     \<and> (if emitted e src s ''m_5'' then \<exists>sl. a5 = [sl] \<and> sliceOfRegion e src s ''m_5'' sl
         else a5 = [])
     \<and> (if emitted e src s ''m_6'' then \<exists>sl. a6 = [sl] \<and> sliceOfRegion e src s ''m_6'' sl
         else a6 = [])
     \<and> (if emitted e src s ''m_1'' then \<exists>sl. a1 = [sl] \<and> sliceOfRegion e src s ''m_1'' sl
         else a1 = [])
     \<and> (if emitted e src s ''m_2'' then \<exists>sl. a2 = [sl] \<and> sliceOfRegion e src s ''m_2'' sl
         else a2 = [])"
proof -
  let ?t = "topHeight src"
  let ?s1 = "extractRegion e src 0 0 80 ?t ''m_5'' st"
  let ?s2 = "extractRegion e src 560 0 80 ?t ''m_6'' ?s1"
  let ?s3 = "extractRegion e src 80 0 240 ?t ''m_1'' ?s2"
  obtain a5 where a5: "slices ?s1 = slices st @ a5"
    "if emitted e src s ''m_5'' then \<exists>sl. a5 = [sl] \<and> sliceOfRegion e src s ''m_5'' sl else a5 = []"
    using extractRegion_region [of src s "''m_5''" 0 0 80 ?t e st]
    by (auto simp: regionRect_def regionRaster_def)
  obtain a6 where a6: "slices ?s2 = slices ?s1 @ a6"
    "if emitted e src s ''m_6'' then \<exists>sl. a6 = [sl] \<and> sliceOfRegion e src s ''m_6'' sl else a6 = []"
    using extractRegion_region [of src s "''m_6''" 560 0 80 ?t e ?s1]
    by (auto simp: regionRect_def regionRaster_def)
  obtain a1 where a1: "slices ?s3 = slices ?s2 @ a1"
    "if emitted e src s ''m_1'' then \<exists>sl. a1 = [sl] \<and> sliceOfRegion e src s ''m_1'' sl else a1 = []"
    using extractRegion_region [of src s "''m_1''" 80 0 240 ?t e ?s2]
    by (auto simp: regionRect_def regionRaster_def)
  obtain a2 where a2: "slices (extractRegion e src 320 0 240 ?t ''m_2'' ?s3) = slices ?s3 @ a2"
    "if emitted e src s ''m_2'' then \<exists>sl. a2 = [sl] \<and> sliceOfRegion e src s ''m_2'' sl else a2 = []"
    using extractRegion_region [of src s "''m_2''" 320 0 240 ?t e ?s3]
    by (auto simp: regionRect_def regionRaster_def)
  have "slices (partTop e src st) = slices st @ a5 @ a6 @ a1 @ a2"
    by (simp add: partTop_def Let_def a2(1) a1(1) a6(1) a5(1))
  with a5(2) a6(2) a1(2) a2(2) show ?thesis by blast
qed

lemma sort_regions:
  assumes "a1 = [] \<or> (\<exists>s. a1 = [s] \<and> name s = ''m_1.png'')"
    and "a2 = [] \<or> (\<exists>s. a2 = [s] \<and> name s = ''m_2.png'')"
    and "a3 = [] \<or> (\<exists>s. a3 = [s] \<and> name s = ''m_3.png'')"
    and "a4 = [] \<or> (\<exists>s. a4 = [s] \<and> name s = ''m_4.png'')"
    and "a5 = [] \<or> (\<exists>s. a5 = [s] \<and> name s = ''m_5.png'')"
    and "a6 = [] \<or> (\<exists>s. a6 = [s] \<and> name s = ''m_6.png'')"
  shows "sortSlices (a5 @ a6 @ a1 @ a2 @ a3 @ a4) = a1 @ a2 @ a3 @ a4 @ a5 @ a6"
  using assms by (elim disjE exE conjE) (simp_all add: localeCompare_def)

lemma region_part:
  assumes "if emitted e src s nm then \<exists>sl. a = [sl] \<and> sliceOfRegion e src s nm sl else a = []"
  shows "a = [] \<or> (\<exists>sl. a = [sl] \<and> name sl = nm @ ''.png'')"
    and "map slice_id a = filter (emitted e src s) [nm]"
    and "\<forall>sl \<in> set a. sliceOfRegion e src s (slice_id sl) sl"
  using assms by (auto simp: sliceOfRegion_def split: if_splits)

lemma processSlices_regions:
  assumes "getContext e src"
  shows "\<exists>r. processSlices e src s = Inr r
     \<and> map slice_id r
         = filter (emitted e src s) [''m_1'', ''m_2'', ''m_3'', ''m_4'', ''m_5'', ''m_6'']
     \<and> (\<forall>sl \<in> set r. sliceOfRegion e src s (slice_id sl) sl)"
proof -
  let ?st0 = "\<lparr>slices = [], urls = 0\<rparr>"
  let ?st1 = "partTop e src ?st0"
  let ?st2 = "partMiddle e src s ?st1"
  let ?st3 = "partBottom e src s ?st2"
  from partTop_region [of e src ?st0 s] obtain a5 a6 a1 a2 where
    top: "slices ?st1 = a5 @ a6 @ a1 @ a2"
    and a5: "if emitted e src s ''m_5'' then \<exists>sl. a5 = [sl] \<and> sliceOfRegion e src s ''m_5'' sl else a5 = []"
    and a6: "if emitted e src s ''m_6'' then \<exists>sl. a6 = [sl] \<and> sliceOfRegion e src s ''m_6'' sl else a6 = []"
    and a1: "if emitted e src s ''m_1'' then \<exists>sl. a1 = [sl] \<and> sliceOfRegion e src s ''m_1'' sl else a1 = []"
    and a2: "if emitted e src s ''m_2'' then \<exists>sl. a2 = [sl] \<and> sliceOfRegion e src s ''m_2'' sl else a2 = []"
    by auto
  from partMiddle_region [of e src s ?st1] obtain a3 where
    mid: "slices ?st2 = slices ?st1 @ a3"
    and a3: "if emitted e src s ''m_3'' then \<exists>sl. a3 = [sl] \<and> sliceOfRegion e src s ''m_3'' sl else a3 = []"
    by auto
  from partBottom_region [of e src s ?st2] obtain a4 where
    bot: "slices ?st3 = slices ?st2 @ a4"
    and a4: "if emitted e src s ''m_4'' then \<exists>sl. a4 = [sl] \<and> sliceOfRegion e src s ''m_4'' sl else a4 = []"
    by auto
  have pushed: "slices ?st3 = a5 @ a6 @ a1 @ a2 @ a3 @ a4"
    by (simp add: bot mid top)
  have sorted: "sortSlices (a5 @ a6 @ a1 @ a2 @ a3 @ a4) = a1 @ a2 @ a3 @ a4 @ a5 @ a6"
    using region_part(1) [OF a1] region_part(1) [OF a2] region_part(1) [OF a3]
      region_part(1) [OF a4] region_part(1) [OF a5] region_part(1) [OF a6]
    by (intro sort_regions) simp_all
  have run: "processSlices e src s = Inr (a1 @ a2 @ a3 @ a4 @ a5 @ a6)"
    using assms by (simp add: processSlices_def Let_def pushed sorted)
  have ids: "map slice_id (a1 @ a2 @ a3 @ a4 @ a5 @ a6)
         = filter (emitted e src s) [''m_1'', ''m_2'', ''m_3'', ''m_4'', ''m_5'', ''m_6'']"
    using region_part(2) [OF a1] region_part(2) [OF a2] region_part(2) [OF a3]
      region_part(2) [OF a4] region_part(2) [OF a5] region_part(2) [OF a6]
    by simp
  have each: "\<forall>sl \<in> set (a1 @ a2 @ a3 @ a4 @ a5 @ a6). sliceOfRegion e src s (slice_id sl) sl"
    using region_part(3) [OF a1] region_part(3) [OF a2] region_part(3) [OF a3]
      region_part(3) [OF a4] region_part(3) [OF a5] region_part(3) [OF a6]
    by auto
  from run ids each show ?thesis by blast
qed

lemma filter_distinct_key:
  assumes "distinct (map f r)" "k \<in> f ` set r"
  shows "\<exists>x. filter (\<lambda>y. f y = k) r = [x] \<and> x \<in> set r \<and> f x = k"
  using assms
proof (induction r)
  case Nil
  then show ?case by simp
next
  case (Cons a r)
  show ?case
  proof (cases "f a = k")
    case True
    from Cons.prems(1) have "f a \<notin> f ` set r" by simp
    then have "\<forall>y \<in> set r. f y \<noteq> k" unfolding True [symmetric] by (metis imageI)
    then have "filter (\<lambda>y. f y = k) r = []"
      by (simp add: filter_empty_conv)
    with True show ?thesis by simp
  next
    case False
    with Cons show ?thesis by auto
  qed
qed

text \<open>
  C2, as the run has it: when the encoder yields nothing for a region, the run does not
  fail. Whenever the source canvas has a 2D context the run returns a list of slices,
  sorted by name, that holds exactly the regions that were attempted and encoded, each
  once, with its rectangle and the encoding of its raster; a region whose raster is not
  encoded has no slice in that list. The only error of the run is \<open>No context\<close>, raised
  exactly when the source canvas has no 2D context.
\<close>

theorem encoder_failure_drops_region:
  "(\<not> getContext e src \<longrightarrow> processSlices e src splitY2 = Inl (Error ''No context''))
   \<and> (getContext e src \<longrightarrow>
        (\<exists>r. processSlices e src splitY2 = Inr r
           \<and> map slice_id r
               = filter (emitted e src splitY2) [''m_1'', ''m_2'', ''m_3'', ''m_4'', ''m_5'', ''m_6'']
           \<and> sorted (map name r)
           \<and> (\<forall>nm \<in> set regionNames.
                 toBlob e (regionRaster src splitY2 nm) = None \<longrightarrow> sliceNamed nm r = [])
           \<and> (\<forall>nm \<in> set regionNames.
                 attempted e src splitY2 nm \<and> toBlob e (regionRaster src splitY2 nm) \<noteq> None \<longrightarrow>
                   (\<exists>sl. sliceNamed nm r = [sl] \<and> sliceOfRegion e src splitY2 nm sl))
           \<and> (\<forall>sl \<in> set r. slice_id sl \<in> set regionNames
                 \<and> toBlob e (regionRaster src splitY2 (slice_id sl)) = Some (blob sl)
                 \<and> sliceOfRegion e src splitY2 (slice_id sl) sl)))
   \<and> (\<forall>e' src' err. processSlices e' src' splitY2 = Inl err \<longrightarrow>
         err = Error ''No context'' \<and> \<not> getContext e' src')"
proof -
  have none: "processSlices e src splitY2 = Inl (Error ''No context'')" if "\<not> getContext e src"
    using that by (simp add: processSlices_def)
  have err: "err = Error ''No context'' \<and> \<not> getContext e' src'"
    if "processSlices e' src' splitY2 = Inl err" for e' src' err
    using that by (auto simp: processSlices_def Let_def split: if_splits)
  have some: "\<exists>r. processSlices e src splitY2 = Inr r
           \<and> map slice_id r
               = filter (emitted e src splitY2) [''m_1'', ''m_2'', ''m_3'', ''m_4'', ''m_5'', ''m_6'']
           \<and> sorted (map name r)
           \<and> (\<forall>nm \<in> set regionNames.
                 toBlob e (regionRaster src splitY2 nm) = None \<longrightarrow> sliceNamed nm r = [])
           \<and> (\<forall>nm \<in> set regionNames.
                 attempted e src splitY2 nm \<and> toBlob e (regionRaster src splitY2 nm) \<noteq> None \<longrightarrow>
                   (\<exists>sl. sliceNamed nm r = [sl] \<and> sliceOfRegion e src splitY2 nm sl))
           \<and> (\<forall>sl \<in> set r. slice_id sl \<in> set regionNames
                 \<and> toBlob e (regionRaster src splitY2 (slice_id sl)) = Some (blob sl)
                 \<and> sliceOfRegion e src splitY2 (slice_id sl) sl)"
    if ctx: "getContext e src"
  proof -
    let ?L = "[''m_1'', ''m_2'', ''m_3'', ''m_4'', ''m_5'', ''m_6'']"
    from processSlices_regions [OF ctx, of splitY2] obtain r where
      run: "processSlices e src splitY2 = Inr r"
      and ids: "map slice_id r = filter (emitted e src splitY2) ?L"
      and each: "\<forall>sl \<in> set r. sliceOfRegion e src splitY2 (slice_id sl) sl"
      by blast
    have srt: "sorted (map name r)"
      using run ctx by (auto simp: processSlices_def Let_def sorted_sortSlices)
    have dist: "distinct (map slice_id r)"
      unfolding ids by (rule distinct_filter) simp
    have mem: "slice_id ` set r = {nm \<in> set ?L. emitted e src splitY2 nm}"
    proof -
      have "slice_id ` set r = set (map slice_id r)" by simp
      also have "\<dots> = {nm \<in> set ?L. emitted e src splitY2 nm}"
        unfolding ids by (simp only: set_filter)
      finally show ?thesis .
    qed
    have dropped: "sliceNamed nm r = []"
      if "toBlob e (regionRaster src splitY2 nm) = None" for nm
    proof -
      have "\<not> emitted e src splitY2 nm" using that by (simp add: emitted_def)
      then have "nm \<notin> slice_id ` set r" unfolding mem by simp
      then show ?thesis by (auto simp: sliceNamed_def filter_empty_conv)
    qed
    have kept: "\<exists>sl. sliceNamed nm r = [sl] \<and> sliceOfRegion e src splitY2 nm sl"
      if "nm \<in> set regionNames" "attempted e src splitY2 nm"
        "toBlob e (regionRaster src splitY2 nm) \<noteq> None" for nm
    proof -
      have "nm \<in> set ?L" using that(1) by (auto simp: regionNames_def)
      with that(2,3) have "nm \<in> slice_id ` set r"
        unfolding mem by (simp add: emitted_def)
      from filter_distinct_key [OF dist this] obtain sl where
        sl: "filter (\<lambda>y. slice_id y = nm) r = [sl]" "sl \<in> set r" "slice_id sl = nm"
        by blast
      with each have "sliceOfRegion e src splitY2 nm sl" by auto
      with sl(1) show ?thesis by (auto simp: sliceNamed_def)
    qed
    have every: "slice_id sl \<in> set regionNames
        \<and> toBlob e (regionRaster src splitY2 (slice_id sl)) = Some (blob sl)
        \<and> sliceOfRegion e src splitY2 (slice_id sl) sl" if "sl \<in> set r" for sl
    proof -
      from that have "slice_id sl \<in> slice_id ` set r" by simp
      then have "slice_id sl \<in> set ?L" unfolding mem by simp
      then have "slice_id sl \<in> set regionNames" by (auto simp: regionNames_def)
      moreover from each that have "sliceOfRegion e src splitY2 (slice_id sl) sl" by simp
      ultimately show ?thesis by (simp add: sliceOfRegion_def)
    qed
    from run ids srt dropped kept every show ?thesis by blast
  qed
  from none some err show ?thesis by blast
qed

theorem encoder_failure_drops_region_witness:
  "getContext narrowFailsEnv (gradient 640)
   \<and> toBlob narrowFailsEnv (regionRaster (gradient 640) 800 ''m_5'') = None
   \<and> attempted narrowFailsEnv (gradient 640) 800 ''m_1''
   \<and> toBlob narrowFailsEnv (regionRaster (gradient 640) 800 ''m_1'') = Some [30, 80]
   \<and> (\<exists>r. processSlices narrowFailsEnv (gradient 640) 800 = Inr r
        \<and> map slice_id r = [''m_1'', ''m_2'', ''m_4'']
        \<and> sorted (map name r)
        \<and> sliceNamed ''m_5'' r = []
        \<and> (\<exists>sl. sliceNamed ''m_1'' r = [sl] \<and> blob sl = [30, 80]
              \<and> geometry sl = (''m_1'', 80, 0, 240, 640)))
   \<and> \<not> getContext noContextEnv (gradient 640)
   \<and> processSlices noContextEnv (gradient 640) 800 = Inl (Error ''No context'')"
proof -
  have ctx: "getContext narrowFailsEnv (gradient 640)"
    by (simp add: narrowFailsEnv_def)
  have t: "topHeight (gradient 640) = 640" "midHeight (gradient 640) 800 = 0"
    by (simp_all add: band_defs gradient_def)
  have m5: "toBlob narrowFailsEnv (regionRaster (gradient 640) 800 ''m_5'') = None"
    by (simp add: narrowFailsEnv_def regionRaster_def)
  have m1: "toBlob narrowFailsEnv (regionRaster (gradient 640) 800 ''m_1'') = Some [30, 80]"
    by (simp add: narrowFailsEnv_def regionRaster_def t)
  have at1: "attempted narrowFailsEnv (gradient 640) 800 ''m_1''"
    by (simp add: attempted_def regionRect_def t narrowFailsEnv_def)
  have rect1: "regionRect (gradient 640) 800 ''m_1'' = (80, 0, 240, 640)"
    by (simp add: regionRect_def t)
  have em: "filter (emitted narrowFailsEnv (gradient 640) 800)
              [''m_1'', ''m_2'', ''m_3'', ''m_4'', ''m_5'', ''m_6''] = [''m_1'', ''m_2'', ''m_4'']"
    by (simp add: emitted_def attempted_def regionRect_def regionRaster_def t narrowFailsEnv_def)
  have nctx: "\<not> getContext noContextEnv (gradient 640)"
    by (simp add: noContextEnv_def)
  from encoder_failure_drops_region [of narrowFailsEnv "gradient 640" 800] ctx obtain r where
    run: "processSlices narrowFailsEnv (gradient 640) 800 = Inr r"
    and ids: "map slice_id r = filter (emitted narrowFailsEnv (gradient 640) 800)
               [''m_1'', ''m_2'', ''m_3'', ''m_4'', ''m_5'', ''m_6'']"
    and srt: "sorted (map name r)"
    and dropped: "\<forall>nm \<in> set regionNames.
        toBlob narrowFailsEnv (regionRaster (gradient 640) 800 nm) = None \<longrightarrow> sliceNamed nm r = []"
    and kept: "\<forall>nm \<in> set regionNames.
        attempted narrowFailsEnv (gradient 640) 800 nm
        \<and> toBlob narrowFailsEnv (regionRaster (gradient 640) 800 nm) \<noteq> None \<longrightarrow>
          (\<exists>sl. sliceNamed nm r = [sl] \<and> sliceOfRegion narrowFailsEnv (gradient 640) 800 nm sl)"
    by blast
  from dropped m5 have d5: "sliceNamed ''m_5'' r = []"
    by (simp add: regionNames_def)
  from kept at1 m1 obtain sl where
    sl: "sliceNamed ''m_1'' r = [sl]" "sliceOfRegion narrowFailsEnv (gradient 640) 800 ''m_1'' sl"
    by (auto simp: regionNames_def)
  from sl(2) have "blob sl = [30, 80]" "geometry sl = (''m_1'', 80, 0, 240, 640)"
    by (simp_all add: sliceOfRegion_def m1 rect1 geometry_def)
  with sl(1) have k1: "\<exists>sl. sliceNamed ''m_1'' r = [sl] \<and> blob sl = [30, 80]
              \<and> geometry sl = (''m_1'', 80, 0, 240, 640)"
    by (intro exI [of _ sl] conjI)
  have res: "\<exists>r. processSlices narrowFailsEnv (gradient 640) 800 = Inr r
        \<and> map slice_id r = [''m_1'', ''m_2'', ''m_4'']
        \<and> sorted (map name r)
        \<and> sliceNamed ''m_5'' r = []
        \<and> (\<exists>sl. sliceNamed ''m_1'' r = [sl] \<and> blob sl = [30, 80]
              \<and> geometry sl = (''m_1'', 80, 0, 240, 640))"
    using run ids [unfolded em] srt d5 k1 by (intro exI [of _ r] conjI)
  have no: "processSlices noContextEnv (gradient 640) 800 = Inl (Error ''No context'')"
    using encoder_failure_drops_region [of noContextEnv "gradient 640" 800] nctx by blast
  from ctx m5 at1 m1 res nctx no show ?thesis by (intro conjI)
qed

theorem encoder_failure_counterexample:
  "toBlob narrowFailsEnv (regionRaster (gradient 640) 800 ''m_5'') = None
   \<and> toBlob narrowFailsEnv (regionRaster (gradient 640) 800 ''m_6'') = None
   \<and> map_sum id (map slice_id) (processSlices narrowFailsEnv (gradient 640) 800)
       = Inr [''m_1'', ''m_2'', ''m_4'']"
  by (simp add: processSlices_def partTop_def partMiddle_def partBottom_def extractRegion_def
      pushBlob_def narrowFailsEnv_def band_defs gradient_def localeCompare_def regionRaster_def)

section \<open>The order of the result\<close>

text \<open>
  C7: for every platform, every source canvas and every \<open>splitY2\<close>, the list that
  \<open>processSlices\<close> returns is sorted lexicographically by the name \<open><name>.png\<close> of its
  slices, whatever the order in which the slices were pushed.
\<close>

theorem processSlices_sorted_by_name:
  "processSlices e src splitY2 = Inr r \<Longrightarrow> sorted (map name r)"
  by (auto simp: processSlices_def Let_def sorted_sortSlices split: if_splits)

theorem processSlices_sorted_by_name_witness:
  "processSlices plainEnv (gradient 900) 800 = Inr (expectedSlices plainEnv (gradient 900) 800)
   \<and> map name (expectedSlices plainEnv (gradient 900) 800)
       = [''m_1.png'', ''m_2.png'', ''m_3.png'', ''m_4.png'', ''m_5.png'', ''m_6.png'']
   \<and> sorted (map name (expectedSlices plainEnv (gradient 900) 800))"
proof -
  have run: "processSlices plainEnv (gradient 900) 800
               = Inr (expectedSlices plainEnv (gradient 900) 800)"
    by (rule processSlices_reliable [OF reliable_plainEnv])
  have names: "map name (expectedSlices plainEnv (gradient 900) 800)
       = [''m_1.png'', ''m_2.png'', ''m_3.png'', ''m_4.png'', ''m_5.png'', ''m_6.png'']"
    by (simp add: expectedSlices_def topSlice_def midSlices_def botSlice_def gradient_def
        band_defs)
  from run names processSlices_sorted_by_name [OF run] show ?thesis by simp
qed

section \<open>Rounding to a double\<close>

lemma roundHalfEven_error: "\<bar>of_int (roundHalfEven m) - m\<bar> \<le> 1 / 2"
proof -
  have lo: "of_int \<lfloor>m\<rfloor> \<le> m" and hi: "m < of_int \<lfloor>m\<rfloor> + 1"
    by linarith+
  show ?thesis
    unfolding roundHalfEven_def Let_def using lo hi
    by (auto simp: abs_le_iff)
qed

lemma exponentOf_bounds:
  assumes "0 < q"
  shows "2 powi exponentOf q \<le> q" "q < 2 powi (exponentOf q + 1)"
proof -
  have both: "2 powi exponentOf q \<le> q \<and> q < 2 powi (exponentOf q + 1)"
  proof (cases "1 \<le> q")
    case True
    define n where "n = nat \<lfloor>q\<rfloor>"
    define k where "k = floorlog 2 n"
    have n: "0 < n" using True by (simp add: n_def)
    have nq: "of_nat n \<le> q" "q < of_nat n + 1"
      using True unfolding n_def by simp_all linarith+
    from floorlog_bounds [OF n, of 2] have b: "2 ^ (k - 1) \<le> n" "n < 2 ^ k"
      by (simp_all add: k_def)
    have k: "0 < k" using n by (simp add: k_def floorlog_def)
    have "exponentOf q = int (k - 1)" "exponentOf q + 1 = int k"
      using True k by (simp_all add: exponentOf_def n_def k_def)
    then have e: "(2::rat) powi exponentOf q = 2 ^ (k - 1)" "(2::rat) powi (exponentOf q + 1) = 2 ^ k"
      by (simp_all only: power_int_of_nat)
    have "(2::rat) ^ (k - 1) \<le> of_nat n"
      using b(1) by (metis of_nat_le_iff of_nat_numeral of_nat_power)
    moreover have "of_nat n + 1 \<le> (2::rat) ^ k"
    proof -
      from b(2) have "n + 1 \<le> 2 ^ k" by simp
      then have "(of_nat (n + 1) :: rat) \<le> of_nat (2 ^ k)" by (simp only: of_nat_le_iff)
      then show ?thesis by simp
    qed
    ultimately show ?thesis
      using nq unfolding e by linarith
  next
    case False
    define m where "m = nat (\<lceil>1 / q\<rceil> - 1)"
    define k where "k = floorlog 2 m"
    have r: "1 < 1 / q" using False assms by simp
    then have c: "2 \<le> \<lceil>1 / q\<rceil>" by linarith
    have m: "0 < m" using c by (simp add: m_def)
    have mq: "of_nat m < 1 / q" "1 / q \<le> of_nat m + 1"
      using c unfolding m_def by simp_all linarith+
    from floorlog_bounds [OF m, of 2] have b: "2 ^ (k - 1) \<le> m" "m < 2 ^ k"
      by (simp_all add: k_def)
    have k: "0 < k" using m by (simp add: k_def floorlog_def)
    have "exponentOf q = - int k" 
      using False by (simp add: exponentOf_def m_def k_def)
    moreover from this have "exponentOf q + 1 = - int (k - 1)"
      using k by simp
    ultimately have e: "(2::rat) powi exponentOf q = 1 / 2 ^ k"
      "(2::rat) powi (exponentOf q + 1) = 1 / 2 ^ (k - 1)"
      by (simp_all only: power_int_minus_divide power_int_of_nat)
    have lo: "(2::rat) ^ (k - 1) \<le> of_nat m"
      using b(1) by (metis of_nat_le_iff of_nat_numeral of_nat_power)
    have hi: "of_nat m + 1 \<le> (2::rat) ^ k"
    proof -
      from b(2) have "m + 1 \<le> 2 ^ k" by simp
      then have "(of_nat (m + 1) :: rat) \<le> of_nat (2 ^ k)" by (simp only: of_nat_le_iff)
      then show ?thesis by simp
    qed
    have "1 / q \<le> 2 ^ k" using mq hi by linarith
    then have A: "1 / 2 ^ k \<le> q"
      using assms by (simp add: field_simps)
    have "2 ^ (k - 1) < 1 / q" using mq lo by linarith
    then have B: "q < 1 / 2 ^ (k - 1)"
      using assms by (simp add: field_simps)
    show ?thesis
      unfolding e using A B by simp
  qed
  from both show "2 powi exponentOf q \<le> q" "q < 2 powi (exponentOf q + 1)" by simp_all
qed

lemma roundToDouble_error:
  assumes "0 \<le> q"
  shows "\<bar>roundToDouble q - q\<bar> \<le> q / 2 ^ 53"
proof (cases "q = 0")
  case True
  then show ?thesis by (simp add: roundToDouble_def)
next
  case False
  with assms have pos: "0 < q" by simp
  define u :: rat where "u = 2 powi (exponentOf q - 52)"
  have u: "0 < u" by (simp add: u_def)
  have uq: "u * 2 ^ 52 \<le> q"
  proof -
    have "u * 2 ^ 52 = 2 powi exponentOf q"
      unfolding u_def by (simp add: power_int_diff)
    with exponentOf_bounds(1) [OF pos] show ?thesis by simp
  qed
  have "roundToDouble q - q = (of_int (roundHalfEven (q / u)) - q / u) * u"
    using False u by (simp add: roundToDouble_def u_def [symmetric] Let_def field_simps)
  then have "\<bar>roundToDouble q - q\<bar> = \<bar>of_int (roundHalfEven (q / u)) - q / u\<bar> * u"
    using u by (simp add: abs_mult)
  also have "\<dots> \<le> (1 / 2) * u"
    using roundHalfEven_error [of "q / u"] u by (intro mult_right_mono) simp_all
  also have "\<dots> \<le> q / 2 ^ 53"
    using uq by (simp add: field_simps)
  finally show ?thesis .
qed

lemma roundToDouble_between:
  assumes "0 \<le> q"
  shows "0 \<le> roundToDouble q" "roundToDouble q \<le> 2 * q"
proof -
  have "q / 2 ^ 53 \<le> q" using assms by (simp add: divide_le_eq)
  with roundToDouble_error [OF assms] have "\<bar>roundToDouble q - q\<bar> \<le> q" by linarith
  then show "0 \<le> roundToDouble q" "roundToDouble q \<le> 2 * q" by linarith+
qed

lemma scaled_error:
  fixes w h :: nat
  assumes "0 < w"
  defines "x \<equiv> (of_nat h * 640 / of_nat w :: rat)"
  shows "\<bar>roundToDouble (of_nat h * roundToDouble (640 / of_nat w)) - x\<bar> \<le> 3 * x / 2 ^ 53"
    and "0 \<le> roundToDouble (of_nat h * roundToDouble (640 / of_nat w))"
proof -
  define d :: rat where "d = 640 / of_nat w"
  define s where "s = roundToDouble d"
  define H :: rat where "H = of_nat h"
  have d: "0 < d" using assms(1) by (simp add: d_def)
  have H: "0 \<le> H" by (simp add: H_def)
  have x: "x = H * d" by (simp add: x_def H_def d_def)
  have sd: "\<bar>s - d\<bar> \<le> d / 2 ^ 53"
    unfolding s_def using roundToDouble_error [of d] d by simp
  have s2: "s \<le> 2 * d" and s0: "0 \<le> s"
    unfolding s_def using roundToDouble_between [of d] d by simp_all
  have Hs: "0 \<le> H * s" using H s0 by simp
  have 1: "\<bar>roundToDouble (H * s) - H * s\<bar> \<le> H * s / 2 ^ 53"
    by (rule roundToDouble_error [OF Hs])
  have "H * s \<le> H * (2 * d)" using H s2 by (rule mult_left_mono [rotated])
  then have 2: "H * s / 2 ^ 53 \<le> 2 * x / 2 ^ 53"
    by (simp add: x divide_right_mono)
  have "\<bar>H * s - H * d\<bar> = H * \<bar>s - d\<bar>"
    using H by (simp add: abs_mult flip: right_diff_distrib)
  also have "\<dots> \<le> H * (d / 2 ^ 53)"
    using sd H by (rule mult_left_mono)
  finally have 3: "\<bar>H * s - x\<bar> \<le> x / 2 ^ 53" by (simp add: x)
  have "\<bar>roundToDouble (H * s) - x\<bar> \<le> \<bar>roundToDouble (H * s) - H * s\<bar> + \<bar>H * s - x\<bar>"
    by simp
  with 1 2 3 have "\<bar>roundToDouble (H * s) - x\<bar> \<le> 3 * x / 2 ^ 53"
    by (simp add: field_simps)
  then show "\<bar>roundToDouble (of_nat h * roundToDouble (640 / of_nat w)) - x\<bar> \<le> 3 * x / 2 ^ 53"
    by (simp add: H_def s_def d_def)
  show "0 \<le> roundToDouble (of_nat h * roundToDouble (640 / of_nat w))"
    using roundToDouble_between(1) [OF Hs] by (simp add: H_def s_def d_def)
qed

lemma scaled_floor:
  fixes w h :: nat
  assumes w: "0 < w" and range: "h * 640 \<le> w * 2147483647"
  defines "t \<equiv> roundToDouble (of_nat h * roundToDouble (640 / of_nat w))"
  defines "q \<equiv> int (h * 640 div w)"
  shows "q - 1 \<le> \<lfloor>t\<rfloor>" "\<lfloor>t\<rfloor> \<le> q + 1" "0 \<le> \<lfloor>t\<rfloor>" "\<lfloor>t\<rfloor> \<le> 2147483647"
    and "w \<le> 2 ^ 20 \<Longrightarrow> \<not> w dvd h * 640 \<Longrightarrow> \<lfloor>t\<rfloor> = q"
    and "w \<le> 2 ^ 20 \<Longrightarrow> w dvd h * 640 \<Longrightarrow> \<lfloor>t\<rfloor> = q \<or> \<lfloor>t\<rfloor> = q - 1"
proof -
  define x :: rat where "x = of_nat h * 640 / of_nat w"
  define r where "r = h * 640 mod w"
  have W: "(0::rat) < of_nat w" using w by simp
  have t0: "0 \<le> t" and err: "\<bar>t - x\<bar> \<le> 3 * x / 2 ^ 53"
    unfolding t_def x_def using scaled_error [OF w, of h] by simp_all
  have "(of_nat (h * 640) :: rat) \<le> of_nat (w * 2147483647)"
    using range by (simp only: of_nat_le_iff)
  then have xM: "x \<le> 2147483647"
    using W by (simp add: x_def field_simps)
  have x0: "0 \<le> x" by (simp add: x_def)
  have "3 * x / 2 ^ 53 < 1 / 2 ^ 20" using xM by simp
  with err have eps: "\<bar>t - x\<bar> < 1 / 2 ^ 20" by linarith
  have "(1::rat) / 2 ^ 20 \<le> 1" by simp
  with eps have eps1: "\<bar>t - x\<bar> < 1" by linarith
  have "of_nat (h * 640) = (of_nat (w * (h * 640 div w) + r) :: rat)"
    by (simp only: r_def mult_div_mod_eq)
  then have xq: "x = of_int q + of_nat r / of_nat w"
    using W by (simp add: x_def q_def field_simps)
  have rw: "r < w" using w by (simp add: r_def)
  then have r1: "(of_nat r :: rat) / of_nat w < 1" using W by simp
  have r0: "(0::rat) \<le> of_nat r / of_nat w" by simp
  have lo: "of_int q - 1 \<le> t" and hi: "t < of_int q + 2"
    using eps1 xq r0 r1 by linarith+
  from lo show "q - 1 \<le> \<lfloor>t\<rfloor>" by (simp add: le_floor_iff)
  from hi show "\<lfloor>t\<rfloor> \<le> q + 1" by (simp add: floor_le_iff)
  from t0 show "0 \<le> \<lfloor>t\<rfloor>" by simp
  have "t < 2147483647 + 1" using eps1 xM by linarith
  then show "\<lfloor>t\<rfloor> \<le> 2147483647" by (simp add: floor_le_iff)
  {
    assume small: "w \<le> 2 ^ 20"
    then have "(of_nat w :: rat) \<le> of_nat (2 ^ 20)" by (simp only: of_nat_le_iff)
    then have "(1::rat) / 2 ^ 20 \<le> 1 / of_nat w"
      using W by (simp add: field_simps)
    with eps have epsw: "\<bar>t - x\<bar> < 1 / of_nat w" by linarith
    {
      assume "\<not> w dvd h * 640"
      then have "0 < r" by (simp add: r_def dvd_eq_mod_eq_0)
      with rw have "1 \<le> r" "r + 1 \<le> w" by simp_all
      then have "(of_nat 1 :: rat) \<le> of_nat r" "(of_nat (r + 1) :: rat) \<le> of_nat w"
        by (simp_all only: of_nat_le_iff)
      then have "(1::rat) / of_nat w \<le> of_nat r / of_nat w"
        "of_nat r / of_nat w + 1 / of_nat w \<le> (1::rat)"
        using W by (simp_all add: field_simps)
      with epsw xq have "of_int q \<le> t" "t < of_int q + 1" by linarith+
      then show "\<lfloor>t\<rfloor> = q" by (simp add: floor_eq_iff)
    }
    {
      assume "w dvd h * 640"
      then have "r = 0" by (simp add: r_def)
      with xq have "x = of_int q" by simp
      moreover have "1 / of_nat w \<le> (1::rat)" using w W by (simp add: field_simps)
      ultimately have "of_int q - 1 \<le> t" "t < of_int q + 1" using epsw by linarith+
      then have "q - 1 \<le> \<lfloor>t\<rfloor>" "\<lfloor>t\<rfloor> \<le> q"
        by (simp_all add: le_floor_iff floor_le_iff)
      then show "\<lfloor>t\<rfloor> = q \<or> \<lfloor>t\<rfloor> = q - 1" by linarith
    }
  }
qed

text \<open>The two operations at a 39 by 117 image and at a 1000 by 999 image.\<close>

lemma exponentOf_eqI:
  assumes "0 < q" "2 powi e \<le> q" "q < 2 powi (e + 1)"
  shows "exponentOf q = e"
proof -
  note b = exponentOf_bounds [OF assms(1)]
  have "(2::rat) powi e < 2 powi (exponentOf q + 1)" using assms(2) b(2) by linarith
  then have 1: "\<not> exponentOf q + 1 \<le> e"
    using power_int_increasing [of "exponentOf q + 1" e "2::rat"] by auto
  have "(2::rat) powi exponentOf q < 2 powi (e + 1)" using assms(3) b(1) by linarith
  then have 2: "\<not> e + 1 \<le> exponentOf q"
    using power_int_increasing [of "e + 1" "exponentOf q" "2::rat"] by auto
  from 1 2 show ?thesis by simp
qed

lemma floor_numeral_divide:
  "\<lfloor>(numeral a :: rat) / numeral b\<rfloor> = numeral a div numeral b"
  using floor_divide_of_int_eq [of "numeral a" "numeral b", where ?'a = rat] by simp

lemma exponent_640_39: "exponentOf (640 / 39) = 4"
  by (rule exponentOf_eqI) simp_all

lemma double_640_39: "roundToDouble (640 / 39) = 288692283805801 / 17592186044416"
  by (simp add: roundToDouble_def exponent_640_39 roundHalfEven_def Let_def floor_numeral_divide)

lemma exponent_117_scaled: "exponentOf (33776997205278717 / 17592186044416) = 10"
  by (rule exponentOf_eqI) simp_all

lemma scaled_39_117: "\<lfloor>roundToDouble (117 * roundToDouble (640 / 39))\<rfloor> = 1919"
  by (simp add: double_640_39) (simp add: roundToDouble_def exponent_117_scaled roundHalfEven_def Let_def floor_numeral_divide)

lemma exponent_16_25: "exponentOf (16 / 25) = - 1"
  by (rule exponentOf_eqI) simp_all

lemma double_16_25: "roundToDouble (16 / 25) = 5764607523034235 / 9007199254740992"
  by (simp add: roundToDouble_def exponent_16_25 roundHalfEven_def Let_def floor_numeral_divide)

lemma exponent_999_scaled: "exponentOf (5758842915511200765 / 9007199254740992) = 9"
  by (rule exponentOf_eqI) simp_all

lemma scaled_1000_999: "\<lfloor>roundToDouble (999 * roundToDouble (16 / 25))\<rfloor> = 639"
  by (simp add: double_16_25) (simp add: roundToDouble_def exponent_999_scaled roundHalfEven_def Let_def floor_numeral_divide)

section \<open>The size of the resized canvas\<close>

lemma resize_size:
  assumes "canvasContext p (createCanvas 300 150)" "0 < iwidth img"
  shows "\<exists>c. resizeImageTo640 p img = Inr c \<and> cwidth c = 640
     \<and> cheight c =
         (let n = \<lfloor>roundToDouble (of_nat (iheight img) * roundToDouble (640 / of_nat (iwidth img)))\<rfloor>
                    mod 2 ^ 32
          in if n \<le> 2147483647 then n else 150)"
  using assms
  by (simp add: resizeImageTo640_def Let_def reflectUnsignedLong_def numDivide_def)

text \<open>
  C5, as the code has it: for every source image whose width is positive and whose scaled
  height \<open>height * 640 / width\<close> does not exceed \<open>2 ^ 31 - 1\<close>, the resized canvas is
  exactly 640 wide, and its height is the product \<open>height * (640 / width)\<close> of two
  operations on doubles with its fraction cut off. That height is within one of
  \<open>height * 640 div width\<close>; for a width of at most \<open>2 ^ 20\<close> it is
  \<open>height * 640 div width\<close> when the width does not divide \<open>height * 640\<close>, and that
  quotient or one less when it does. No rounding of the exact quotient is applied.
\<close>

theorem resize_height_near_quotient:
  assumes "canvasContext p (createCanvas 300 150)" "0 < iwidth img"
    and "iheight img * 640 \<le> iwidth img * 2147483647"
  shows "\<exists>c. resizeImageTo640 p img = Inr c \<and> cwidth c = 640
     \<and> cheight c
         = \<lfloor>roundToDouble (of_nat (iheight img) * roundToDouble (640 / of_nat (iwidth img)))\<rfloor>
     \<and> int (iheight img * 640 div iwidth img) - 1 \<le> cheight c
     \<and> cheight c \<le> int (iheight img * 640 div iwidth img) + 1
     \<and> (iwidth img \<le> 2 ^ 20 \<longrightarrow>
           (if iwidth img dvd iheight img * 640
            then cheight c = int (iheight img * 640 div iwidth img)
               \<or> cheight c = int (iheight img * 640 div iwidth img) - 1
            else cheight c = int (iheight img * 640 div iwidth img)))"
proof -
  let ?t = "roundToDouble (of_nat (iheight img) * roundToDouble (640 / of_nat (iwidth img)))"
  note fl = scaled_floor [OF assms(2,3)]
  from resize_size [OF assms(1,2)] obtain c where c: "resizeImageTo640 p img = Inr c"
    "cwidth c = 640"
    "cheight c = (let n = \<lfloor>?t\<rfloor> mod 2 ^ 32 in if n \<le> 2147483647 then n else 150)"
    by blast
  have "\<lfloor>?t\<rfloor> mod 2 ^ 32 = \<lfloor>?t\<rfloor>"
    using fl(3,4) by (intro mod_pos_pos_trivial) simp_all
  then have h: "cheight c = \<lfloor>?t\<rfloor>"
    using fl(4) by (simp add: c(3) Let_def)
  show ?thesis
    using c(1,2) h fl(1,2) fl(5,6) by (intro exI [of _ c]) auto
qed

theorem resize_height_near_quotient_witness:
  "canvasContext plainResizer (createCanvas 300 150)
   \<and> 0 < iwidth (imageOf 39 117) \<and> iwidth (imageOf 39 117) \<le> 2 ^ 20
   \<and> iwidth (imageOf 39 117) dvd iheight (imageOf 39 117) * 640
   \<and> iheight (imageOf 39 117) * 640 \<le> iwidth (imageOf 39 117) * 2147483647
   \<and> (\<exists>c. resizeImageTo640 plainResizer (imageOf 39 117) = Inr c \<and> cwidth c = 640
        \<and> cheight c = 1919)
   \<and> 117 * 640 div 39 = (1920 :: nat)
   \<and> 0 < iwidth (imageOf 1000 999) \<and> iwidth (imageOf 1000 999) \<le> 2 ^ 20
   \<and> \<not> iwidth (imageOf 1000 999) dvd iheight (imageOf 1000 999) * 640
   \<and> iheight (imageOf 1000 999) * 640 \<le> iwidth (imageOf 1000 999) * 2147483647
   \<and> (\<exists>c. resizeImageTo640 plainResizer (imageOf 1000 999) = Inr c \<and> cwidth c = 640
        \<and> cheight c = 639)
   \<and> 999 * 640 div 1000 = (639 :: nat)"
proof -
  have ctx: "canvasContext plainResizer (createCanvas 300 150)"
    by (simp add: plainResizer_def)
  have a: "0 < iwidth (imageOf 39 117)"
    "iheight (imageOf 39 117) * 640 \<le> iwidth (imageOf 39 117) * 2147483647"
    by (simp_all add: imageOf_def)
  have b: "0 < iwidth (imageOf 1000 999)"
    "iheight (imageOf 1000 999) * 640 \<le> iwidth (imageOf 1000 999) * 2147483647"
    by (simp_all add: imageOf_def)
  have va: "\<lfloor>roundToDouble (of_nat (iheight (imageOf 39 117))
              * roundToDouble (640 / of_nat (iwidth (imageOf 39 117))))\<rfloor> = 1919"
    by (simp add: imageOf_def scaled_39_117)
  have vb: "\<lfloor>roundToDouble (of_nat (iheight (imageOf 1000 999))
              * roundToDouble (640 / of_nat (iwidth (imageOf 1000 999))))\<rfloor> = 639"
    by (simp add: imageOf_def scaled_1000_999)
  have c: "iwidth (imageOf 39 117) \<le> 2 ^ 20"
    "iwidth (imageOf 39 117) dvd iheight (imageOf 39 117) * 640"
    "iwidth (imageOf 1000 999) \<le> 2 ^ 20"
    "\<not> iwidth (imageOf 1000 999) dvd iheight (imageOf 1000 999) * 640"
    by (simp_all add: imageOf_def)
  have ra: "\<exists>c. resizeImageTo640 plainResizer (imageOf 39 117) = Inr c \<and> cwidth c = 640
        \<and> cheight c = 1919"
    using resize_height_near_quotient [OF ctx a] unfolding va by (elim exE conjE) (intro exI conjI)
  have rb: "\<exists>c. resizeImageTo640 plainResizer (imageOf 1000 999) = Inr c \<and> cwidth c = 640
        \<and> cheight c = 639"
    using resize_height_near_quotient [OF ctx b] unfolding vb by (elim exE conjE) (intro exI conjI)
  have q: "117 * 640 div 39 = (1920 :: nat)" "999 * 640 div 1000 = (639 :: nat)"
    by simp_all
  from ctx a b c ra rb q show ?thesis by (intro conjI)
qed

theorem resize_height_counterexample:
  "map_sum id canvasSize (resizeImageTo640 plainResizer (imageOf 39 117)) = Inr (640, 1919)
   \<and> (117 * 640) mod 39 = (0 :: nat)
   \<and> \<lfloor>117 * 640 / 39 :: rat\<rfloor> = 1920
   \<and> \<lceil>117 * 640 / 39 :: rat\<rceil> = 1920
   \<and> round (117 * 640 / 39 :: rat) = 1920"
proof -
  have ctx: "canvasContext plainResizer (createCanvas 300 150)"
    by (simp add: plainResizer_def)
  have w: "0 < iwidth (imageOf 39 117)" by (simp add: imageOf_def)
  have v: "\<lfloor>roundToDouble (of_nat (iheight (imageOf 39 117))
              * roundToDouble (640 / of_nat (iwidth (imageOf 39 117))))\<rfloor> = 1919"
    by (simp add: imageOf_def scaled_39_117)
  have "map_sum id canvasSize (resizeImageTo640 plainResizer (imageOf 39 117)) = Inr (640, 1919)"
    using resize_size [OF ctx w] unfolding v by (auto simp: canvasSize_def)
  moreover have "(117 * 640 / 39 :: rat) = 1920" by simp
  ultimately show ?thesis by simp
qed

section \<open>Errors of the resize\<close>

text \<open>
  C6, as the code has it: the resize checks neither the width nor the height of the source
  image and has no error for them. For an image whose width or height is 0 it returns a
  canvas 640 wide and 0 high whenever the new canvas has a 2D context. Its only error is
  \<open>Could not get canvas context\<close>, raised exactly when there is no such context, and then
  no canvas is returned.
\<close>

theorem resize_only_error_is_context:
  "(resizeImageTo640 p img = Inl err \<longleftrightarrow>
      \<not> canvasContext p (createCanvas 300 150) \<and> err = Error ''Could not get canvas context'')
   \<and> (canvasContext p (createCanvas 300 150) \<and> (iwidth img = 0 \<or> iheight img = 0) \<longrightarrow>
        (\<exists>c. resizeImageTo640 p img = Inr c \<and> cwidth c = 640 \<and> cheight c = 0))"
proof -
  have err: "resizeImageTo640 p img = Inl err \<longleftrightarrow>
      \<not> canvasContext p (createCanvas 300 150) \<and> err = Error ''Could not get canvas context''"
    by (auto simp: resizeImageTo640_def Let_def)
  have zero: "\<exists>c. resizeImageTo640 p img = Inr c \<and> cwidth c = 640 \<and> cheight c = 0"
    if "canvasContext p (createCanvas 300 150)" "iwidth img = 0 \<or> iheight img = 0"
  proof (cases "iwidth img = 0")
    case True
    with that(1) show ?thesis
      by (simp add: resizeImageTo640_def Let_def reflectUnsignedLong_def numDivide_def)
  next
    case False
    with that have "iheight img = 0" by simp
    with that(1) False show ?thesis
      by (simp add: resizeImageTo640_def Let_def reflectUnsignedLong_def numDivide_def
          roundToDouble_def)
  qed
  from err zero show ?thesis by blast
qed

theorem resize_only_error_is_context_witness:
  "canvasContext plainResizer (createCanvas 300 150) \<and> iwidth (imageOf 0 0) = 0
   \<and> (\<exists>c. resizeImageTo640 plainResizer (imageOf 0 0) = Inr c \<and> cwidth c = 640
        \<and> cheight c = 0)
   \<and> \<not> canvasContext noContextResizer (createCanvas 300 150)
   \<and> resizeImageTo640 noContextResizer (imageOf 1280 1280)
       = Inl (Error ''Could not get canvas context'')"
proof -
  have ctx: "canvasContext plainResizer (createCanvas 300 150)"
    "\<not> canvasContext noContextResizer (createCanvas 300 150)"
    by (simp_all add: plainResizer_def noContextResizer_def)
  have w: "iwidth (imageOf 0 0) = 0" by (simp add: imageOf_def)
  from resize_only_error_is_context [of plainResizer "imageOf 0 0"]
    resize_only_error_is_context [of noContextResizer "imageOf 1280 1280"
      "Error ''Could not get canvas context''"]
  show ?thesis using ctx w by simp
qed

theorem resize_invalid_input_counterexample:
  "iwidth (imageOf 0 0) = 0 \<and> iheight (imageOf 0 0) = 0
   \<and> map_sum id canvasSize (resizeImageTo640 plainResizer (imageOf 0 0)) = Inr (640, 0)
   \<and> iwidth (imageOf 0 100) = 0
   \<and> map_sum id canvasSize (resizeImageTo640 plainResizer (imageOf 0 100)) = Inr (640, 0)
   \<and> iheight (imageOf 100 0) = 0
   \<and> map_sum id canvasSize (resizeImageTo640 plainResizer (imageOf 100 0)) = Inr (640, 0)
   \<and> 0 < iwidth (imageOf 1280 1280) \<and> 0 < iheight (imageOf 1280 1280)
   \<and> resizeImageTo640 noContextResizer (imageOf 1280 1280)
       = Inl (Error ''Could not get canvas context'')"
  by (simp add: resizeImageTo640_def Let_def reflectUnsignedLong_def numDivide_def
      roundToDouble_def plainResizer_def noContextResizer_def imageOf_def canvasSize_def)

end
